theory Spec2Isabelle
  imports Main "HOL-Library.Sublist"
begin

section \<open>Python strings\<close>

text \<open>
  A Python \<open>str\<close> is a sequence of Unicode code points; \<open>len\<close> counts code points.
  The Korean literals of \<open>naver_map.py\<close> lie outside ASCII, so a string is a list of
  code points (\<open>nat\<close>), not an Isabelle \<open>string\<close> of bytes. ASCII literals are written
  \<open>asc ''...''\<close>; the others are given as code point lists, with the code points named
  in the accompanying text.
\<close>

type_synonym ustr = "nat list"

definition asc :: "string \<Rightarrow> ustr" where
  "asc s = map of_char s"

text \<open>
  \<open>str.strip()\<close> without argument removes the characters for which \<open>str.isspace\<close>
  holds: U+0009..U+000D, U+001C..U+0020, U+0085, U+00A0, U+1680, U+2000..U+200A,
  U+2028, U+2029, U+202F, U+205F, U+3000.
\<close>

definition is_space :: "nat \<Rightarrow> bool" where
  "is_space c =
     ((9 \<le> c \<and> c \<le> 13) \<or> (28 \<le> c \<and> c \<le> 32) \<or> c = 133 \<or> c = 160 \<or> c = 5760 \<or>
      (8192 \<le> c \<and> c \<le> 8202) \<or> c = 8232 \<or> c = 8233 \<or> c = 8239 \<or> c = 8287 \<or> c = 12288)"

definition strip_py :: "ustr \<Rightarrow> ustr" where
  "strip_py s = rev (dropWhile is_space (rev (dropWhile is_space s)))"

text \<open>
  In a \<open>str\<close> pattern, \<open>\d\<close> of the \<open>re\<close> module matches every Unicode decimal digit
  (general category Nd), not only \<open>0\<close>..\<open>9\<close>. The table lists the Nd ranges of
  Unicode 14, each a pair of its first and last code point.
\<close>

definition decimal_ranges :: "(nat \<times> nat) list" where
  "decimal_ranges =
     [(48, 57), (1632, 1641), (1776, 1785), (1984, 1993), (2406, 2415), (2534, 2543),
      (2662, 2671), (2790, 2799), (2918, 2927), (3046, 3055), (3174, 3183), (3302, 3311),
      (3430, 3439), (3558, 3567), (3664, 3673), (3792, 3801), (3872, 3881), (4160, 4169),
      (4240, 4249), (6112, 6121), (6160, 6169), (6470, 6479), (6608, 6617), (6784, 6793),
      (6800, 6809), (6992, 7001), (7088, 7097), (7232, 7241), (7248, 7257), (42528, 42537),
      (43216, 43225), (43264, 43273), (43472, 43481), (43504, 43513), (43600, 43609),
      (44016, 44025), (65296, 65305), (66720, 66729), (68912, 68921), (69734, 69743),
      (69872, 69881), (69942, 69951), (70096, 70105), (70384, 70393), (70736, 70745),
      (70864, 70873), (71248, 71257), (71360, 71369), (71472, 71481), (71904, 71913),
      (72016, 72025), (72784, 72793), (73040, 73049), (73120, 73129), (92768, 92777),
      (92864, 92873), (93008, 93017), (120782, 120831), (123200, 123209), (123632, 123641),
      (125264, 125273), (130032, 130041)]"

definition is_digit :: "nat \<Rightarrow> bool" where
  "is_digit c =
     (if c < 128 then 48 \<le> c \<and> c \<le> 57
      else list_ex (\<lambda>r. fst r \<le> c \<and> c \<le> snd r) decimal_ranges)"

text \<open>\<open>sub in s\<close>: the substring test. \<open>s.startswith(p)\<close> is \<open>prefix p s\<close>.\<close>

fun str_contains :: "ustr \<Rightarrow> ustr \<Rightarrow> bool" where
  "str_contains sub [] = (sub = [])"
| "str_contains sub (c # cs) = (prefix sub (c # cs) \<or> str_contains sub cs)"

text \<open>\<open>sep.join(xs)\<close>.\<close>

fun join :: "ustr \<Rightarrow> ustr list \<Rightarrow> ustr" where
  "join sep [] = []"
| "join sep [x] = x"
| "join sep (x # y # ys) = x @ sep @ join sep (y # ys)"


section \<open>Exceptions\<close>

text \<open>
  A raised exception is a value: its class and its message. The classes are the ones
  the module raises or catches by name; \<open>LibraryError\<close> stands for any other subclass of
  \<open>Exception\<close> raised by a library (urllib, Playwright). Results are \<open>exc + 'a\<close>, with
  \<open>Inl\<close> the raised exception.
\<close>

datatype exc_class = ValueError | RuntimeError | NotImplementedError | LibraryError

datatype exc = Exc (exc_class: exc_class) (exc_msg: ustr)


section \<open>URL resolver: \<open>extract_place_id\<close>\<close>

text \<open>
  The two messages of \<open>extract_place_id\<close>. \<open>msg_url_empty\<close> is the Korean sentence
  "the Naver map URL is empty" (U+B124 U+C774 U+BC84, space, U+C9C0 U+B3C4, space, URL
  U+C774, ...); \<open>msg_place_id_not_found\<close> is "could not find placeId in the URL"
  (URL U+C5D0 U+C11C, space, placeId U+B97C, ...).
\<close>

definition msg_url_empty :: ustr where
  "msg_url_empty =
     [45348, 51060, 48260, 32, 51648, 46020, 32, 85, 82, 76, 51060, 32, 48708, 50612, 32,
      51080, 49845, 45768, 45796, 46]"

definition msg_place_id_not_found :: ustr where
  "msg_place_id_not_found =
     [85, 82, 76, 50640, 49436, 32, 112, 108, 97, 99, 101, 73, 100, 47484, 32, 52286, 51648,
      32, 47803, 54664, 49845, 45768, 45796, 46]"

text \<open>
  The standard library calls of \<open>extract_place_id\<close> are parameters:
  \<open>url_host raw\<close> is \<open>urlparse(raw).netloc.lower()\<close>, which raises \<open>ValueError\<close> on some
  malformed URLs; \<open>follow_redirect raw\<close> is the URL reported by
  \<open>urlopen(Request(raw, ...), timeout=10).geturl()\<close>, or the network failure raised.
\<close>

record net_env =
  url_host :: "ustr \<Rightarrow> exc + ustr"
  follow_redirect :: "ustr \<Rightarrow> exc + ustr"

text \<open>
  The patterns are a literal followed by the group \<open>(\d+)\<close>; they are kept as
  their literals, in the order of the source's list.
\<close>

definition patterns :: "ustr list" where
  "patterns = [asc ''/entry/place/'', asc ''/place/'', asc ''placeId='']"

text \<open>
  \<open>shape_here lit s\<close>: the pattern \<open>lit(\d+)\<close> matches at the start of \<open>s\<close>.
  \<open>search_digits lit s\<close> is \<open>re.search(lit + "(\d+)", s)\<close> followed by \<open>group(1)\<close>:
  the leftmost position where the pattern matches, and there the longest run of digits
  (\<open>+\<close> is greedy); \<open>None\<close> when there is no match.
\<close>

definition shape_here :: "ustr \<Rightarrow> ustr \<Rightarrow> bool" where
  "shape_here lit s =
     (prefix lit s \<and> (case drop (length lit) s of [] \<Rightarrow> False | d # _ \<Rightarrow> is_digit d))"

fun search_digits :: "ustr \<Rightarrow> ustr \<Rightarrow> ustr option" where
  "search_digits lit [] = None"
| "search_digits lit (c # cs) =
     (if shape_here lit (c # cs) then Some (takeWhile is_digit (drop (length lit) (c # cs)))
      else search_digits lit cs)"

text \<open>The loop \<open>for p in patterns: m = re.search(p, raw); if m: return m.group(1)\<close>.\<close>

fun first_match :: "ustr list \<Rightarrow> ustr \<Rightarrow> ustr option" where
  "first_match [] raw = None"
| "first_match (p # ps) raw =
     (case search_digits p raw of Some ds \<Rightarrow> Some ds | None \<Rightarrow> first_match ps raw)"

definition extract_place_id :: "net_env \<Rightarrow> ustr \<Rightarrow> exc + ustr" where
  "extract_place_id env url =
     (if strip_py url = [] then Inl (Exc ValueError msg_url_empty)
      else
        let raw = strip_py url in
        case url_host env raw of
          Inl e \<Rightarrow> Inl e
        | Inr host \<Rightarrow>
            (case (if str_contains (asc ''naver.me'') host then follow_redirect env raw
                   else Inr raw) of
               Inl e \<Rightarrow> Inl e
             | Inr raw' \<Rightarrow>
                 (case first_match patterns raw' of
                    Some ds \<Rightarrow> Inr ds
                  | None \<Rightarrow> Inl (Exc ValueError msg_place_id_not_found))))"

text \<open>
  \<open>has_shape lit s\<close>: the string \<open>s\<close> contains \<open>lit\<close> followed by a digit, that is,
  the pattern \<open>lit(\d+)\<close> matches somewhere in \<open>s\<close>.
\<close>

fun has_shape :: "ustr \<Rightarrow> ustr \<Rightarrow> bool" where
  "has_shape lit [] = False"
| "has_shape lit (c # cs) = (shape_here lit (c # cs) \<or> has_shape lit cs)"


section \<open>Text normalisation: \<open>_normalize_text\<close>\<close>

text \<open>
  \<open>text.replace("\r", "\n")\<close>, then \<open>re.sub(r"\n{3,}", "\n\n", text)\<close>, then \<open>strip()\<close>.
  The substitution replaces every maximal run of three or more line feeds by two; runs
  of one or two stay. \<open>collapse_newlines n s\<close> scans \<open>s\<close> with \<open>n\<close> line feeds of the
  current run pending.
\<close>

definition cr_to_lf :: "ustr \<Rightarrow> ustr" where
  "cr_to_lf s = map (\<lambda>c. if c = 13 then 10 else c) s"

fun collapse_newlines :: "nat \<Rightarrow> ustr \<Rightarrow> ustr" where
  "collapse_newlines n [] = replicate (if 3 \<le> n then 2 else n) 10"
| "collapse_newlines n (c # cs) =
     (if c = 10 then collapse_newlines (Suc n) cs
      else replicate (if 3 \<le> n then 2 else n) 10 @ c # collapse_newlines 0 cs)"

definition normalize_text :: "ustr \<Rightarrow> ustr" where
  "normalize_text s = strip_py (collapse_newlines 0 (cr_to_lf s))"


section \<open>Section text extractor: \<open>_extract_tab_sections_text\<close>\<close>

text \<open>
  The browser script returns the list of blocks, each a dictionary with the keys
  \<open>title\<close> and \<open>text\<close>; \<open>block.get(key) or ""\<close> reads a missing or null entry as the
  empty string.
\<close>

record block =
  block_title :: "ustr option"
  block_text :: "ustr option"

definition or_empty :: "ustr option \<Rightarrow> ustr" where
  "or_empty v = (case v of None \<Rightarrow> [] | Some s \<Rightarrow> s)"

text \<open>
  \<open>re.sub(r"\d+$", "", s)\<close>: the run of digits at the end of the string is removed.
  Without the MULTILINE flag \<open>$\<close> also matches just before a line feed that ends the
  string, so there the digits before that line feed are removed.
\<close>

definition sub_trailing_digits :: "ustr \<Rightarrow> ustr" where
  "sub_trailing_digits s =
     (if s \<noteq> [] \<and> last s = 10 then rev (dropWhile is_digit (rev (butlast s))) @ [10]
      else rev (dropWhile is_digit (rev s)))"

text \<open>
  The phrases of the noise rules. The action tokens are "depart" (U+CD9C U+BC1C),
  "arrive" (U+B3C4 U+CC29), "save" (U+C800 U+C7A5), "street view" (U+AC70 U+B9AC U+BDF0)
  and "share" (U+ACF5 U+C720); further "subscribe to alerts" (U+C54C U+B9BC U+BC1B U+AE30),
  "close page", "suggest an edit" and "view as menu image".
\<close>

definition tok_depart :: ustr where
  "tok_depart = [52636, 48156]"

definition tok_arrive :: ustr where
  "tok_arrive = [46020, 52265]"

definition tok_save :: ustr where
  "tok_save = [51200, 51109]"

definition tok_street_view :: ustr where
  "tok_street_view = [44144, 47532, 48624]"

definition tok_share :: ustr where
  "tok_share = [44277, 50976]"

definition action_tokens :: "ustr list" where
  "action_tokens = [tok_depart, tok_arrive, tok_save, tok_street_view, tok_share]"

definition phrase_alert_subscribe :: ustr where
  "phrase_alert_subscribe = [50508, 47548, 48155, 44592]"

definition phrase_close_page :: ustr where
  "phrase_close_page = [54168, 51060, 51648, 32, 45803, 44592]"

definition phrase_suggest_edit :: ustr where
  "phrase_suggest_edit = [51221, 48372, 32, 49688, 51221, 32, 51228, 50504, 54616, 44592]"

definition phrase_menu_image :: ustr where
  "phrase_menu_image = [47700, 45684, 54032, 32, 51060, 48120, 51648, 47196, 32, 48372, 44592]"

text \<open>The four tests of the loop body, in the order of the source.\<close>

definition action_hit_count :: "ustr \<Rightarrow> nat" where
  "action_hit_count txt = length (filter (\<lambda>token. str_contains token txt) action_tokens)"

definition noise_actions :: "ustr \<Rightarrow> bool" where
  "noise_actions txt =
     ((str_contains phrase_alert_subscribe txt \<and> str_contains tok_depart txt \<and>
       str_contains tok_arrive txt) \<or>
      3 \<le> action_hit_count txt \<or> str_contains phrase_close_page txt)"

definition noise_suggest_edit :: "ustr \<Rightarrow> bool" where
  "noise_suggest_edit txt = str_contains phrase_suggest_edit txt"

definition noise_menu_image :: "ustr \<Rightarrow> bool" where
  "noise_menu_image txt = prefix phrase_menu_image txt"

definition too_short :: "ustr \<Rightarrow> bool" where
  "too_short txt = (length txt < 10)"

text \<open>
  One round of the loop: \<open>None\<close> when the block is skipped (\<open>continue\<close>), otherwise the
  string appended to \<open>cleaned\<close>.
\<close>

definition clean_block :: "block \<Rightarrow> ustr option" where
  "clean_block b =
     (let raw_title = strip_py (or_empty (block_title b));
          title = strip_py (sub_trailing_digits raw_title);
          txt = normalize_text (or_empty (block_text b))
      in if txt = [] then None
         else if noise_actions txt then None
         else if noise_suggest_edit txt then None
         else if noise_menu_image txt then None
         else if too_short txt then None
         else if title \<noteq> [] \<and> \<not> prefix title txt then Some (title @ [10] @ txt)
         else Some txt)"

fun clean_blocks :: "block list \<Rightarrow> ustr list" where
  "clean_blocks [] = []"
| "clean_blocks (b # bs) =
     (case clean_block b of None \<Rightarrow> clean_blocks bs | Some t \<Rightarrow> t # clean_blocks bs)"

text \<open>The text the function returns for the blocks that the script delivered.\<close>

definition sections_text :: "block list \<Rightarrow> ustr" where
  "sections_text blocks = normalize_text (join [10, 10] (clean_blocks blocks))"


section \<open>Field merger: \<open>merge_blog_input_with_crawl\<close>\<close>

record crawled_place_data =
  place_id :: ustr
  source_url :: ustr
  home_text :: ustr
  menu_text :: ustr
  info_text :: ustr
  news_text :: ustr

text \<open>
  \<open>str.splitlines()\<close> breaks at LF, VT, FF, CR, CR LF (one break), FS, GS, RS, NEL,
  U+2028 and U+2029, and yields no empty last line.
\<close>

definition is_linebreak :: "nat \<Rightarrow> bool" where
  "is_linebreak c =
     ((10 \<le> c \<and> c \<le> 13) \<or> (28 \<le> c \<and> c \<le> 30) \<or> c = 133 \<or> c = 8232 \<or> c = 8233)"

fun splitlines_from :: "ustr \<Rightarrow> ustr \<Rightarrow> ustr list" where
  "splitlines_from cur [] = (if cur = [] then [] else [cur])"
| "splitlines_from cur (c # cs) =
     (if is_linebreak c then
        cur # (case cs of
                 [] \<Rightarrow> splitlines_from [] cs
               | d # ds \<Rightarrow> if c = 13 \<and> d = 10 then splitlines_from [] ds
                           else splitlines_from [] cs)
      else splitlines_from (cur @ [c]) cs)"

definition splitlines :: "ustr \<Rightarrow> ustr list" where
  "splitlines s = splitlines_from [] s"

text \<open>
  The words of the guesses: the boilerplate line "Naver map search", the tab labels
  "home" (U+D648), "menu" (U+BA54 U+B274), "info" (U+C815 U+BCF4), "news"
  (U+C18C U+C2DD), "review", "photo"; the markers "business" (U+C601 U+C5C5) and
  "last order"; "parking", "amenity", "wireless internet", "takeout"; and the label
  of the map link line, "map link: " (U+C9C0 U+B3C4, space, U+B9C1 U+D06C, colon, space).
\<close>

definition boilerplate_search :: ustr where
  "boilerplate_search = [45348, 51060, 48260, 51648, 46020, 32, 44160, 49353]"

definition label_home :: ustr where
  "label_home = [54856]"

definition label_menu :: ustr where
  "label_menu = [47700, 45684]"

definition label_info :: ustr where
  "label_info = [51221, 48372]"

definition label_news :: ustr where
  "label_news = [49548, 49885]"

definition label_review :: ustr where
  "label_review = [47532, 48624]"

definition label_photo :: ustr where
  "label_photo = [49324, 51652]"

definition mark_business :: ustr where
  "mark_business = [50689, 50629]"

definition mark_last_order :: ustr where
  "mark_last_order = [46972, 49828, 53944, 50724, 45908]"

definition mark_parking :: ustr where
  "mark_parking = [51452, 52264]"

definition mark_amenity :: ustr where
  "mark_amenity = [54200, 51032]"

definition mark_wifi :: ustr where
  "mark_wifi = [47924, 49440, 32, 51064, 53552, 45367]"

definition mark_takeout :: ustr where
  "mark_takeout = [54252, 51109]"

definition map_link_label :: ustr where
  "map_link_label = [51648, 46020, 32, 47553, 53356, 58, 32]"

fun first_name_line :: "ustr list \<Rightarrow> ustr" where
  "first_name_line [] = []"
| "first_name_line (ln # lns) =
     (let line = strip_py ln in
      if line = [] then first_name_line lns
      else if line = boilerplate_search then first_name_line lns
      else if line \<in> set [label_home, label_menu, label_info, label_news, label_review,
                             label_photo]
      then first_name_line lns
      else line)"

definition guess_place_name :: "ustr \<Rightarrow> ustr" where
  "guess_place_name txt = first_name_line (splitlines txt)"

definition stripped_lines :: "ustr \<Rightarrow> ustr list" where
  "stripped_lines txt = map strip_py (filter (\<lambda>ln. strip_py ln \<noteq> []) (splitlines txt))"

definition guess_business_hours :: "ustr \<Rightarrow> ustr" where
  "guess_business_hours txt =
     (let candidates = filter (\<lambda>ln. str_contains mark_business ln \<or>
                                     str_contains mark_last_order ln) (stripped_lines txt)
      in strip_py (join (asc '' / '') (take 3 candidates)))"

definition parking_tips :: "ustr \<Rightarrow> ustr list" where
  "parking_tips txt =
     filter (\<lambda>ln. str_contains mark_parking ln \<or> str_contains mark_amenity ln \<or>
                  str_contains mark_wifi ln \<or> str_contains mark_takeout ln)
       (stripped_lines txt)"

text \<open>
  The input record is a dictionary from field names to strings. \<open>get_or m k d\<close> is
  \<open>m.get(k, d)\<close>; \<open>truthy m k\<close> is the truth value of \<open>m.get(k)\<close>: the key is present
  with a non-empty string.
\<close>

type_synonym fields = "ustr \<rightharpoonup> ustr"

definition get_or :: "fields \<Rightarrow> ustr \<Rightarrow> ustr \<Rightarrow> ustr" where
  "get_or m k d = (case m k of None \<Rightarrow> d | Some v \<Rightarrow> v)"

definition truthy :: "fields \<Rightarrow> ustr \<Rightarrow> bool" where
  "truthy m k = (case m k of None \<Rightarrow> False | Some v \<Rightarrow> v \<noteq> [])"

text \<open>\<open>if not out.get(k): out[k] = v\<close>.\<close>

definition fill_if_empty :: "ustr \<Rightarrow> ustr \<Rightarrow> fields \<Rightarrow> fields" where
  "fill_if_empty k v out = (if \<not> truthy out k then out(k \<mapsto> v) else out)"

text \<open>The field names the merger reads and writes.\<close>

definition key_place_name :: ustr where
  "key_place_name = asc ''place_name''"

definition key_business_hours :: ustr where
  "key_business_hours = asc ''business_hours''"

definition key_location_info :: ustr where
  "key_location_info = asc ''location_info''"

definition key_home_tab_info :: ustr where
  "key_home_tab_info = asc ''home_tab_info''"

definition key_menu_tab_info :: ustr where
  "key_menu_tab_info = asc ''menu_tab_info''"

definition key_info_tab_info :: ustr where
  "key_info_tab_info = asc ''info_tab_info''"

definition key_news_tab_info :: ustr where
  "key_news_tab_info = asc ''news_tab_info''"

definition key_parking_or_tips :: ustr where
  "key_parking_or_tips = asc ''parking_or_tips''"

definition key_target_keyword :: ustr where
  "key_target_keyword = asc ''target_keyword''"

text \<open>
  The statements of \<open>merge_blog_input_with_crawl\<close>, one function for each, in the order
  of the source; \<open>out\<close> is the dictionary under construction.
\<close>

definition backfill_place_name :: "crawled_place_data \<Rightarrow> fields \<Rightarrow> fields" where
  "backfill_place_name crawled out =
     (let place_name = guess_place_name (home_text crawled) in
      if place_name \<noteq> [] \<and> \<not> truthy out key_place_name
      then out(key_place_name \<mapsto> place_name) else out)"

definition backfill_business_hours :: "crawled_place_data \<Rightarrow> fields \<Rightarrow> fields" where
  "backfill_business_hours crawled out =
     (let business_hours = guess_business_hours (home_text crawled @ [10] @ info_text crawled) in
      if business_hours \<noteq> [] \<and> \<not> truthy out key_business_hours
      then out(key_business_hours \<mapsto> business_hours) else out)"

definition append_location_info :: "crawled_place_data \<Rightarrow> fields \<Rightarrow> fields" where
  "append_location_info crawled out =
     (let location_append = map_link_label @ source_url crawled in
      if truthy out key_location_info
      then out(key_location_info \<mapsto>
             strip_py (get_or out key_location_info []) @ [10] @ location_append)
      else out(key_location_info \<mapsto> location_append))"

definition backfill_tab_texts :: "crawled_place_data \<Rightarrow> fields \<Rightarrow> fields" where
  "backfill_tab_texts crawled out =
     (let out = fill_if_empty key_home_tab_info (home_text crawled) out;
          out = fill_if_empty key_menu_tab_info (menu_text crawled) out;
          out = fill_if_empty key_info_tab_info (info_text crawled) out;
          out = fill_if_empty key_news_tab_info (news_text crawled) out
      in out)"

definition backfill_parking_or_tips :: "crawled_place_data \<Rightarrow> fields \<Rightarrow> fields" where
  "backfill_parking_or_tips crawled out =
     (if \<not> truthy out key_parking_or_tips then
        (let tips = parking_tips (info_text crawled) in
         if tips \<noteq> [] then out(key_parking_or_tips \<mapsto> join [10] (take 6 tips)) else out)
      else out)"

definition backfill_target_keyword :: "fields \<Rightarrow> fields" where
  "backfill_target_keyword out =
     (if \<not> truthy out key_target_keyword
      then out(key_target_keyword \<mapsto> get_or out key_place_name []) else out)"

definition merge_blog_input_with_crawl :: "fields \<Rightarrow> crawled_place_data \<Rightarrow> fields" where
  "merge_blog_input_with_crawl input_dict crawled =
     (let out = input_dict;
          out = backfill_place_name crawled out;
          out = backfill_business_hours crawled out;
          out = append_location_info crawled out;
          out = backfill_tab_texts crawled out;
          out = backfill_parking_or_tips crawled out;
          out = backfill_target_keyword out
      in out)"


section \<open>The browser session\<close>

text \<open>
  The page is outside the program: its state is a value of an arbitrary type \<open>'w\<close>,
  and every Playwright call is a parameter, a function on that state which returns the
  call's result or the exception it raised, with the state afterwards. The model keeps
  two logs next to the state: the URLs passed to \<open>page.goto\<close> and the elements on which
  \<open>click()\<close> was called.
\<close>

record frame =
  frame_ref :: nat
  frame_url :: ustr

record element =
  element_ref :: nat
  inner_text :: ustr

record 'w browser =
  playwright_installed :: bool
  open_session :: "nat \<Rightarrow> bool \<Rightarrow> 'w \<Rightarrow> (exc + unit) \<times> 'w"
  goto :: "ustr \<Rightarrow> 'w \<Rightarrow> (exc + unit) \<times> 'w"
  wait_for_timeout :: "nat \<Rightarrow> 'w \<Rightarrow> (exc + unit) \<times> 'w"
  page_frames :: "'w \<Rightarrow> frame list"
  main_frame :: "'w \<Rightarrow> frame"
  scroll_nudge :: "frame \<Rightarrow> 'w \<Rightarrow> (exc + unit) \<times> 'w"
  query_candidates :: "frame \<Rightarrow> 'w \<Rightarrow> (exc + element list) \<times> 'w"
  click :: "element \<Rightarrow> 'w \<Rightarrow> (exc + unit) \<times> 'w"
  query_tab_links :: "frame \<Rightarrow> 'w \<Rightarrow> (exc + fields) \<times> 'w"
  query_section_blocks :: "frame \<Rightarrow> 'w \<Rightarrow> (exc + block list) \<times> 'w"
  query_panel_text :: "frame \<Rightarrow> 'w \<Rightarrow> (exc + ustr) \<times> 'w"
  close_session :: "'w \<Rightarrow> (exc + unit) \<times> 'w"
  stop_playwright :: "'w \<Rightarrow> 'w"
  urljoin :: "ustr \<Rightarrow> ustr \<Rightarrow> exc + ustr"

text \<open>
  \<open>open_session timeout_ms headless\<close> stands for entering \<open>sync_playwright()\<close>,
  \<open>chromium.launch\<close>, \<open>new_context\<close>, \<open>new_page\<close> and \<open>set_default_timeout\<close>;
  \<open>close_session\<close> for \<open>context.close()\<close> and \<open>browser.close()\<close>; \<open>stop_playwright\<close>
  for leaving the \<open>with\<close> block, which happens on every exit. \<open>scroll_nudge\<close> is the
  first script of \<open>_expand_business_hours\<close>. \<open>query_candidates\<close> is the
  \<open>querySelectorAll\<close> of its second script, each element with \<open>el.innerText || ''\<close>;
  \<open>query_tab_links\<close>, \<open>query_section_blocks\<close> and \<open>query_panel_text\<close> are the scripts of
  \<open>_extract_tab_links\<close>, \<open>_extract_tab_sections_text\<close> and
  \<open>_extract_visible_panel_text\<close>. \<open>urljoin\<close> is the function of \<open>urllib.parse\<close>.
\<close>

record 'w session =
  world :: 'w
  nav_log :: "ustr list"
  click_log :: "element list"

text \<open>Sequencing of calls that may raise: an exception ends the sequence.\<close>

definition ret :: "'a \<Rightarrow> 's \<Rightarrow> (exc + 'a) \<times> 's" where
  "ret x s = (Inr x, s)"

definition raise_exc :: "exc \<Rightarrow> 's \<Rightarrow> (exc + 'a) \<times> 's" where
  "raise_exc e s = (Inl e, s)"

definition then_do ::
  "('s \<Rightarrow> (exc + 'a) \<times> 's) \<Rightarrow> ('a \<Rightarrow> 's \<Rightarrow> (exc + 'b) \<times> 's) \<Rightarrow> 's \<Rightarrow> (exc + 'b) \<times> 's" where
  "then_do m f s = (case m s of (Inl e, s') \<Rightarrow> (Inl e, s') | (Inr x, s') \<Rightarrow> f x s')"

definition on_world ::
  "('w \<Rightarrow> (exc + 'a) \<times> 'w) \<Rightarrow> 'w session \<Rightarrow> (exc + 'a) \<times> 'w session" where
  "on_world f s = (case f (world s) of (r, w) \<Rightarrow> (r, s\<lparr>world := w\<rparr>))"

definition page_goto :: "'w browser \<Rightarrow> ustr \<Rightarrow> 'w session \<Rightarrow> (exc + unit) \<times> 'w session" where
  "page_goto br url s = on_world (goto br url) (s\<lparr>nav_log := nav_log s @ [url]\<rparr>)"

definition page_wait :: "'w browser \<Rightarrow> nat \<Rightarrow> 'w session \<Rightarrow> (exc + unit) \<times> 'w session" where
  "page_wait br ms s = on_world (wait_for_timeout br ms) s"

definition element_click ::
  "'w browser \<Rightarrow> element \<Rightarrow> 'w session \<Rightarrow> (exc + unit) \<times> 'w session" where
  "element_click br el s = on_world (click br el) (s\<lparr>click_log := click_log s @ [el]\<rparr>)"


section \<open>Frame locator and tab discovery\<close>

text \<open>\<open>_get_place_frame\<close>: the first frame whose URL contains the place origin.\<close>

definition get_place_frame :: "'w browser \<Rightarrow> 'w session \<Rightarrow> frame option" where
  "get_place_frame br s =
     find (\<lambda>f. str_contains (asc ''pcmap.place.naver.com'') (frame_url f))
       (page_frames br (world s))"

definition extract_tab_links :: "'w browser \<Rightarrow> frame \<Rightarrow> 'w session \<Rightarrow> (exc + fields) \<times> 'w session" where
  "extract_tab_links br fr s = on_world (query_tab_links br fr) s"


section \<open>Expandable-section trigger: \<open>_expand_business_hours\<close>\<close>

text \<open>
  The second script runs in the page, on JavaScript strings; \<open>inner_text\<close> of an
  element is its text as a sequence of UTF-16 code units. \<open>trim()\<close> removes
  JavaScript's white space and line terminators (which include U+FEFF and exclude
  U+001C..U+001F and U+0085). In the regular expression \<open>/\b\d{1,2}:\d{2}\b/\<close> the
  class \<open>\d\<close> is \<open>0\<close>..\<open>9\<close> and a word character is a letter of ASCII, a digit or
  the underscore. The words are "unfold" (U+D3BC U+CCD0 U+BCF4 U+AE30) and "see more"
  (U+B354 U+BCF4 U+AE30).
\<close>

definition js_is_space :: "nat \<Rightarrow> bool" where
  "js_is_space c =
     ((9 \<le> c \<and> c \<le> 13) \<or> c = 32 \<or> c = 160 \<or> c = 5760 \<or> (8192 \<le> c \<and> c \<le> 8202) \<or>
      c = 8232 \<or> c = 8233 \<or> c = 8239 \<or> c = 8287 \<or> c = 12288 \<or> c = 65279)"

definition js_trim :: "ustr \<Rightarrow> ustr" where
  "js_trim s = rev (dropWhile js_is_space (rev (dropWhile js_is_space s)))"

definition js_is_digit :: "nat \<Rightarrow> bool" where
  "js_is_digit c = (48 \<le> c \<and> c \<le> 57)"

definition js_is_word :: "nat \<Rightarrow> bool" where
  "js_is_word c = ((48 \<le> c \<and> c \<le> 57) \<or> (65 \<le> c \<and> c \<le> 90) \<or> c = 95 \<or> (97 \<le> c \<and> c \<le> 122))"

text \<open>
  \<open>time_tail s\<close>: \<open>:\d{2}\b\<close> matches at the start of \<open>s\<close>. \<open>time_here s\<close>:
  \<open>\d{1,2}:\d{2}\b\<close> matches at the start of \<open>s\<close>, with one digit or with two.
  \<open>has_time_pattern_from pw s\<close>: the whole expression matches somewhere in \<open>s\<close>, where
  \<open>pw\<close> tells whether the character before \<open>s\<close> is a word character (the leading
  \<open>\b\<close> stands before a digit, so it asks for no word character before).
\<close>

definition time_tail :: "ustr \<Rightarrow> bool" where
  "time_tail s =
     (case s of
        c # d1 # d2 # rest \<Rightarrow>
          c = 58 \<and> js_is_digit d1 \<and> js_is_digit d2 \<and>
          (case rest of [] \<Rightarrow> True | r # _ \<Rightarrow> \<not> js_is_word r)
      | _ \<Rightarrow> False)"

definition time_here :: "ustr \<Rightarrow> bool" where
  "time_here s =
     (case s of
        [] \<Rightarrow> False
      | d # s1 \<Rightarrow>
          js_is_digit d \<and>
          (time_tail s1 \<or> (case s1 of [] \<Rightarrow> False | d' # s2 \<Rightarrow> js_is_digit d' \<and> time_tail s2)))"

fun has_time_pattern_from :: "bool \<Rightarrow> ustr \<Rightarrow> bool" where
  "has_time_pattern_from pw [] = False"
| "has_time_pattern_from pw (c # cs) =
     ((\<not> pw \<and> time_here (c # cs)) \<or> has_time_pattern_from (js_is_word c) cs)"

definition word_expand :: ustr where
  "word_expand = [54204, 52432, 48372, 44592]"

definition word_more :: ustr where
  "word_more = [45908, 48372, 44592]"

definition has_expand_word :: "ustr \<Rightarrow> bool" where
  "has_expand_word t = (str_contains word_expand t \<or> str_contains word_more t)"

definition has_time_or_last_order :: "ustr \<Rightarrow> bool" where
  "has_time_or_last_order t = (has_time_pattern_from False t \<or> str_contains mark_last_order t)"

text \<open>The predicate passed to \<open>cands.find\<close>.\<close>

definition is_expand_target :: "element \<Rightarrow> bool" where
  "is_expand_target el =
     (let t = js_trim (inner_text el) in
      if t = [] then False else has_expand_word t \<and> has_time_or_last_order t)"

text \<open>
  The second script: the first candidate that satisfies the predicate is clicked and
  the script returns true; without such a candidate it returns false.
\<close>

definition expand_script :: "'w browser \<Rightarrow> frame \<Rightarrow> 'w session \<Rightarrow> (exc + bool) \<times> 'w session" where
  "expand_script br fr =
     then_do (on_world (query_candidates br fr)) (\<lambda>cands.
       case find is_expand_target cands of
         Some target \<Rightarrow> then_do (element_click br target) (\<lambda>_. ret True)
       | None \<Rightarrow> ret False)"

text \<open>
  \<open>_expand_business_hours\<close>: both evaluations stand in one \<open>try\<close>, and
  \<open>except Exception\<close> answers \<open>False\<close>. The exceptions of the model are instances of
  \<open>Exception\<close>.
\<close>

definition expand_business_hours ::
  "'w browser \<Rightarrow> frame \<Rightarrow> 'w session \<Rightarrow> (exc + bool) \<times> 'w session" where
  "expand_business_hours br fr s =
     (case then_do (on_world (scroll_nudge br fr)) (\<lambda>_. expand_script br fr) s of
        (Inl e, s') \<Rightarrow> (Inr False, s')
      | (Inr b, s') \<Rightarrow> (Inr b, s'))"

text \<open>
  The retry loop of the caller: \<open>for _ in range(n): if _expand_business_hours(frame):
  wait 700; break; wait pause\<close>.
\<close>

fun expand_loop ::
  "'w browser \<Rightarrow> frame \<Rightarrow> nat \<Rightarrow> nat \<Rightarrow> 'w session \<Rightarrow> (exc + unit) \<times> 'w session" where
  "expand_loop br fr 0 pause = ret ()"
| "expand_loop br fr (Suc n) pause =
     then_do (expand_business_hours br fr) (\<lambda>found.
       if found then page_wait br 700
       else then_do (page_wait br pause) (\<lambda>_. expand_loop br fr n pause))"


section \<open>Crawl orchestrator: \<open>crawl_place_tabs\<close>\<close>

text \<open>
  The messages of the three \<open>RuntimeError\<close>s: Playwright is not installed; the place
  panel iframe was not found; the browser process could not be started.
\<close>

definition msg_playwright_missing :: ustr where
  "msg_playwright_missing =
     [112, 108, 97, 121, 119, 114, 105, 103, 104, 116, 44032, 32, 49444, 52824, 46104,
      50612, 32, 51080, 51648, 32, 50506, 49845, 45768, 45796, 46, 32, 96, 112, 105,
      112, 32, 105, 110, 115, 116, 97, 108, 108, 32, 112, 108, 97, 121, 119, 114, 105,
      103, 104, 116, 32, 38, 38, 32, 112, 108, 97, 121, 119, 114, 105, 103, 104, 116,
      32, 105, 110, 115, 116, 97, 108, 108, 32, 99, 104, 114, 111, 109, 105, 117, 109,
      96, 32, 47484, 32, 47676, 51200, 32, 49892, 54665, 54616, 49464, 50836, 46]"

definition msg_frame_not_found :: ustr where
  "msg_frame_not_found =
     [45348, 51060, 48260, 32, 51109, 49548, 32, 54056, 45328, 32, 105, 102, 114, 97,
      109, 101, 51012, 32, 52286, 51648, 32, 47803, 54664, 49845, 45768, 45796, 46]"

definition msg_launch_failed :: ustr where
  "msg_launch_failed =
     [80, 108, 97, 121, 119, 114, 105, 103, 104, 116, 32, 48652, 46972, 50864, 51200,
      32, 54532, 47196, 49464, 49828, 32, 49892, 54665, 50640, 32, 49892, 54056, 54664,
      49845, 45768, 45796, 46, 32, 87, 105, 110, 100, 111, 119, 115, 32, 51060, 48292,
      53944, 32, 47336, 54532, 32, 51060, 49800, 51068, 32, 49688, 32, 51080, 49845,
      45768, 45796, 46, 32, 53552, 48120, 45328, 50640, 49436, 32, 96, 112, 108, 97,
      121, 119, 114, 105, 103, 104, 116, 32, 105, 110, 115, 116, 97, 108, 108, 32, 99,
      104, 114, 111, 109, 105, 117, 109, 96, 32, 49892, 54665, 32, 54980, 32, 50545,
      51012, 32, 51116, 49884, 51089, 54644, 32, 51452, 49464, 50836, 46]"

text \<open>\<open>f"https://map.naver.com/p/entry/place/{place_id}?placePath=%2Fhome"\<close>.\<close>

definition map_entry_home :: "ustr \<Rightarrow> ustr" where
  "map_entry_home pid = asc ''https://map.naver.com/p/entry/place/'' @ pid @ asc ''?placePath=%2Fhome''"

text \<open>
  \<open>_extract_tab_sections_text(frame) or _extract_visible_panel_text(frame)\<close>: the panel
  text is read only when the sections give the empty string.
\<close>

definition extract_text :: "'w browser \<Rightarrow> frame \<Rightarrow> 'w session \<Rightarrow> (exc + ustr) \<times> 'w session" where
  "extract_text br fr =
     then_do (on_world (query_section_blocks br fr)) (\<lambda>blocks.
       if sections_text blocks \<noteq> [] then ret (sections_text blocks)
       else then_do (on_world (query_panel_text br fr)) (\<lambda>raw. ret (normalize_text raw)))"

datatype tab_key = Home | Menu | Info | News

definition label_to_key :: "(ustr \<times> tab_key) list" where
  "label_to_key = [(label_home, Home), (label_menu, Menu), (label_info, Info), (label_news, News)]"

text \<open>
  The start of the session, up to the place frame: open the browser, go to the home
  URL, wait, and find the frame or raise.
\<close>

definition open_home ::
  "'w browser \<Rightarrow> ustr \<Rightarrow> nat \<Rightarrow> bool \<Rightarrow> 'w session \<Rightarrow> (exc + frame) \<times> 'w session" where
  "open_home br url timeout_ms headless =
     then_do (on_world (open_session br timeout_ms headless)) (\<lambda>_.
     then_do (page_goto br url) (\<lambda>_.
     then_do (page_wait br 3500) (\<lambda>_ s.
       case get_place_frame br s of
         None \<Rightarrow> raise_exc (Exc RuntimeError msg_frame_not_found) s
       | Some fr \<Rightarrow> ret fr s)))"

text \<open>\<open>_get_place_frame(page) or page.main_frame\<close>.\<close>

definition current_tab_frame :: "'w browser \<Rightarrow> 'w session \<Rightarrow> frame" where
  "current_tab_frame br s =
     (case get_place_frame br s of Some fr \<Rightarrow> fr | None \<Rightarrow> main_frame br (world s))"

text \<open>
  One round of the loop over \<open>label_to_key.items()\<close>; \<open>result\<close> is the dictionary of
  the four texts. \<open>visit_tab\<close> is the part of the round after \<open>urljoin\<close>.
\<close>

definition visit_tab ::
  "'w browser \<Rightarrow> tab_key \<Rightarrow> ustr \<Rightarrow> (tab_key \<Rightarrow> ustr) \<Rightarrow> 'w session \<Rightarrow>
   (exc + (tab_key \<Rightarrow> ustr)) \<times> 'w session" where
  "visit_tab br key tab_url result =
     then_do (page_goto br tab_url) (\<lambda>_.
     then_do (page_wait br 2200) (\<lambda>_.
     then_do (\<lambda>s. ret (current_tab_frame br s) s) (\<lambda>tab_frame.
     then_do (if key = Home \<or> key = Info then expand_loop br tab_frame 3 400 else ret ()) (\<lambda>_.
     then_do (extract_text br tab_frame) (\<lambda>t. ret (result(key := t)))))))"

definition crawl_tab ::
  "'w browser \<Rightarrow> fields \<Rightarrow> ustr \<Rightarrow> tab_key \<Rightarrow> (tab_key \<Rightarrow> ustr) \<Rightarrow> 'w session \<Rightarrow>
   (exc + (tab_key \<Rightarrow> ustr)) \<times> 'w session" where
  "crawl_tab br tab_links label key result =
     (if key = Home then ret result
      else if \<not> truthy tab_links label then ret (result(key := []))
      else
        (case urljoin br (asc ''https://pcmap.place.naver.com'') (get_or tab_links label []) of
           Inl e \<Rightarrow> raise_exc e
         | Inr tab_url \<Rightarrow> visit_tab br key tab_url result))"

fun crawl_tabs ::
  "'w browser \<Rightarrow> fields \<Rightarrow> (ustr \<times> tab_key) list \<Rightarrow> (tab_key \<Rightarrow> ustr) \<Rightarrow> 'w session \<Rightarrow>
   (exc + (tab_key \<Rightarrow> ustr)) \<times> 'w session" where
  "crawl_tabs br tab_links [] result = ret result"
| "crawl_tabs br tab_links ((label, key) # rest) result =
     then_do (crawl_tab br tab_links label key result) (crawl_tabs br tab_links rest)"

text \<open>The body of the \<open>with\<close> block.\<close>

definition crawl_session ::
  "'w browser \<Rightarrow> ustr \<Rightarrow> nat \<Rightarrow> bool \<Rightarrow> 'w session \<Rightarrow> (exc + (tab_key \<Rightarrow> ustr)) \<times> 'w session" where
  "crawl_session br url timeout_ms headless =
     then_do (open_home br url timeout_ms headless) (\<lambda>fr.
     then_do (extract_tab_links br fr) (\<lambda>tab_links.
     then_do (expand_loop br fr 4 500) (\<lambda>_.
     then_do (extract_text br fr) (\<lambda>home.
     then_do (crawl_tabs br tab_links label_to_key ((\<lambda>_. [])(Home := home))) (\<lambda>result.
     then_do (on_world (close_session br)) (\<lambda>_. ret result))))))"

text \<open>
  \<open>crawl_place_tabs\<close>. The adjustment of the event loop policy on Windows stands in a
  \<open>try\<close> that passes on every exception and has no part in the result; it is left out.
  Leaving the \<open>with\<close> block stops Playwright on every path; a \<open>NotImplementedError\<close>
  from inside the block is raised anew as a \<open>RuntimeError\<close>.
\<close>

definition crawl_place_tabs ::
  "net_env \<Rightarrow> 'w browser \<Rightarrow> ustr \<Rightarrow> nat \<Rightarrow> bool \<Rightarrow> 'w session \<Rightarrow>
   (exc + crawled_place_data) \<times> 'w session" where
  "crawl_place_tabs net br map_url timeout_ms headless s =
     (if \<not> playwright_installed br then (Inl (Exc RuntimeError msg_playwright_missing), s)
      else
        case extract_place_id net map_url of
          Inl e \<Rightarrow> (Inl e, s)
        | Inr pid \<Rightarrow>
            (case crawl_session br (map_entry_home pid) timeout_ms headless s of
               (r, s1) \<Rightarrow>
                 (let s2 = s1\<lparr>world := stop_playwright br (world s1)\<rparr> in
                  case r of
                    Inl e \<Rightarrow>
                      if exc_class e = NotImplementedError
                      then (Inl (Exc RuntimeError msg_launch_failed), s2)
                      else (Inl e, s2)
                  | Inr result \<Rightarrow>
                      (Inr \<lparr>place_id = pid, source_url = map_entry_home pid,
                            home_text = result Home, menu_text = result Menu,
                            info_text = result Info, news_text = result News\<rparr>, s2))))"

text \<open>
  The URLs of the tab navigations that a run with the discovered links \<open>tab_links\<close>
  performs after the home page: one for each of the menu, info and news labels that has
  a non-empty link, in this order.
\<close>

definition tab_urls :: "'w browser \<Rightarrow> fields \<Rightarrow> ustr list" where
  "tab_urls br tab_links =
     concat (map (\<lambda>label.
       if truthy tab_links label then
         (case urljoin br (asc ''https://pcmap.place.naver.com'') (get_or tab_links label []) of
            Inl e \<Rightarrow> []
          | Inr u \<Rightarrow> [u])
       else []) [label_menu, label_info, label_news])"


section \<open>Concrete environments and inputs for the examples\<close>

definition env_place :: net_env where
  "env_place = \<lparr>url_host = (\<lambda>u. Inr (asc ''m.place.naver.com'')),
                 follow_redirect = (\<lambda>u. Inl (Exc LibraryError []))\<rparr>"

text \<open>A short link: the host is \<open>naver.me\<close> and the redirect leads to an entry URL.\<close>

definition env_short :: net_env where
  "env_short = \<lparr>url_host = (\<lambda>u. Inr (asc ''naver.me'')),
                 follow_redirect = (\<lambda>u. Inr (asc ''https://map.naver.com/p/entry/place/1234567''))\<rparr>"

definition env_example :: net_env where
  "env_example = \<lparr>url_host = (\<lambda>u. Inr (asc ''example.com'')),
                   follow_redirect = (\<lambda>u. Inl (Exc LibraryError []))\<rparr>"

text \<open>
  Sample blocks: the action bar "depart arrive save street-view share subscribe", the
  two-character text U+C9E7 U+B2E4 ("short"), and a business hours block ("business
  hours", line feed, "daily 11:00-21:00 last order 20:30").
\<close>

definition ex_actions_text :: ustr where
  "ex_actions_text =
     [52636, 48156, 32, 46020, 52265, 32, 51200, 51109, 32, 44144, 47532, 48624, 32,
      44277, 50976, 32, 50508, 47548, 48155, 44592]"

definition ex_short_text :: ustr where
  "ex_short_text = [51687, 45796]"

definition ex_hours_text :: ustr where
  "ex_hours_text =
     [50689, 50629, 49884, 44036, 10, 47588, 51068, 32, 49, 49, 58, 48, 48, 45, 50, 49,
      58, 48, 48, 32, 46972, 49828, 53944, 50724, 45908, 32, 50, 48, 58, 51, 48]"

text \<open>
  Sample headers and bodies: the header "menu" with the badge counter 2 over a body that
  begins with "menu" and a line feed, and the header "business info" (U+C601 U+C5C5
  U+C815 U+BCF4) over a body that does not begin with it.
\<close>

definition ex_menu_header :: ustr where
  "ex_menu_header = [47700, 45684, 50]"

definition ex_menu_body :: ustr where
  "ex_menu_body =
     [47700, 45684, 10, 44608, 52824, 52236, 44060, 32, 57, 44, 48, 48, 48, 50896, 10,
      46108, 51109, 52236, 44060, 32, 56, 44, 48, 48, 48, 50896]"

definition ex_hours_header :: ustr where
  "ex_hours_header = [50689, 50629, 51221, 48372]"

definition ex_hours_body :: ustr where
  "ex_hours_body =
     [47588, 51068, 32, 49, 49, 58, 48, 48, 45, 50, 49, 58, 48, 48, 32, 46972, 49828,
      53944, 50724, 45908, 32, 50, 48, 58, 51, 48]"

text \<open>
  A crawl record and input records for the merger: one with a place name, a field the
  merger does not know and a location; one whose location starts with a blank.
\<close>

definition ex_crawl :: crawled_place_data where
  "ex_crawl = \<lparr>place_id = asc ''1234567'', source_url = asc ''https://x/y'',
               home_text = asc ''Cafe Naver'', menu_text = asc ''Latte 5000'',
               info_text = [], news_text = []\<rparr>"

definition ex_fields :: fields where
  "ex_fields = [key_place_name \<mapsto> asc ''My Cafe'', asc ''tone'' \<mapsto> asc ''info'',
                key_location_info \<mapsto> asc ''Seoul'']"

definition ex_fields_padded :: fields where
  "ex_fields_padded = [key_location_info \<mapsto> asc '' Seoul'']"

text \<open>
  A browser for the examples. Its page has an outer frame and the place frame; the tab
  bar links the home and the menu tab only; no section blocks are found, so that texts
  come from the panel; two candidate controls exist, "see more" without a time and
  "daily 11:00 - 21:00 unfold". \<open>br_failing\<close> is the same browser with a scroll script
  that raises.
\<close>

definition ex_outer_frame :: frame where
  "ex_outer_frame = \<lparr>frame_ref = 0, frame_url = asc ''https://map.naver.com/p/entry/place/1234567''\<rparr>"

definition ex_place_frame :: frame where
  "ex_place_frame =
     \<lparr>frame_ref = 1, frame_url = asc ''https://pcmap.place.naver.com/restaurant/1234567/home''\<rparr>"

definition ex_expand_text :: ustr where
  "ex_expand_text =
     [47588, 51068, 32, 49, 49, 58, 48, 48, 32, 45, 32, 50, 49, 58, 48, 48, 32, 54204,
      52432, 48372, 44592]"

definition el_more :: element where
  "el_more = \<lparr>element_ref = 0, inner_text = word_more\<rparr>"

definition el_hours :: element where
  "el_hours = \<lparr>element_ref = 1, inner_text = ex_expand_text\<rparr>"

definition ex_tab_links :: fields where
  "ex_tab_links = [label_home \<mapsto> asc ''/restaurant/1234567/home'',
                   label_menu \<mapsto> asc ''/restaurant/1234567/menu'']"

definition br_stub :: "unit browser" where
  "br_stub =
     \<lparr>playwright_installed = True,
      open_session = (\<lambda>t h w. (Inr (), w)),
      goto = (\<lambda>u w. (Inr (), w)),
      wait_for_timeout = (\<lambda>ms w. (Inr (), w)),
      page_frames = (\<lambda>w. [ex_outer_frame, ex_place_frame]),
      main_frame = (\<lambda>w. ex_outer_frame),
      scroll_nudge = (\<lambda>f w. (Inr (), w)),
      query_candidates = (\<lambda>f w. (Inr [el_more, el_hours], w)),
      click = (\<lambda>el w. (Inr (), w)),
      query_tab_links = (\<lambda>f w. (Inr ex_tab_links, w)),
      query_section_blocks = (\<lambda>f w. (Inr [], w)),
      query_panel_text = (\<lambda>f w. (Inr (asc ''Cafe Naver''), w)),
      close_session = (\<lambda>w. (Inr (), w)),
      stop_playwright = (\<lambda>w. w),
      urljoin = (\<lambda>base href. Inr (base @ href))\<rparr>"

definition br_failing :: "unit browser" where
  "br_failing =
     br_stub\<lparr>scroll_nudge := (\<lambda>f w. (Inl (Exc LibraryError (asc ''Frame was detached'')), w))\<rparr>"

definition ex_start :: "unit session" where
  "ex_start = \<lparr>world = (), nav_log = [], click_log = []\<rparr>"

definition ex_map_url :: ustr where
  "ex_map_url = asc '' https://m.place.naver.com/place/1234567/home''"

definition ex_menu_url :: ustr where
  "ex_menu_url = asc ''https://pcmap.place.naver.com'' @ asc ''/restaurant/1234567/menu''"


section \<open>The URL resolver\<close>

lemma shape_here_iff:
  "shape_here lit s \<longleftrightarrow> (\<exists>d post. s = lit @ d # post \<and> is_digit d)"
proof
  assume "shape_here lit s"
  then obtain zs where s: "s = lit @ zs" and z: "(case zs of [] \<Rightarrow> False | d # _ \<Rightarrow> is_digit d)"
    by (auto simp: shape_here_def prefix_def)
  from z obtain d post where "zs = d # post" "is_digit d"
    by (cases zs) auto
  with s show "\<exists>d post. s = lit @ d # post \<and> is_digit d" by blast
next
  assume "\<exists>d post. s = lit @ d # post \<and> is_digit d"
  then show "shape_here lit s" by (auto simp: shape_here_def)
qed

lemma has_shape_iff:
  "has_shape lit s \<longleftrightarrow> (\<exists>pre d post. s = pre @ lit @ d # post \<and> is_digit d)"
proof (induction s)
  case Nil then show ?case by simp
next
  case (Cons c cs)
  show ?case
  proof
    assume "has_shape lit (c # cs)"
    then consider "shape_here lit (c # cs)" | "has_shape lit cs" by auto
    then show "\<exists>pre d post. c # cs = pre @ lit @ d # post \<and> is_digit d"
    proof cases
      case 1
      then obtain d post where "c # cs = [] @ lit @ d # post" "is_digit d"
        by (auto simp: shape_here_iff)
      then show ?thesis by blast
    next
      case 2
      then obtain pre d post where "cs = pre @ lit @ d # post" "is_digit d"
        using Cons.IH by blast
      then have "c # cs = (c # pre) @ lit @ d # post" by simp
      with \<open>is_digit d\<close> show ?thesis by blast
    qed
  next
    assume "\<exists>pre d post. c # cs = pre @ lit @ d # post \<and> is_digit d"
    then obtain pre d post where e: "c # cs = pre @ lit @ d # post" and d: "is_digit d"
      by blast
    show "has_shape lit (c # cs)"
    proof (cases pre)
      case Nil
      with e d have "shape_here lit (c # cs)" by (auto simp: shape_here_iff)
      then show ?thesis by simp
    next
      case (Cons p pre')
      with e have "cs = pre' @ lit @ d # post" by simp
      with d have "has_shape lit cs" using Cons.IH by blast
      then show ?thesis by simp
    qed
  qed
qed

lemma search_digits_None: "search_digits lit s = None \<longleftrightarrow> \<not> has_shape lit s"
  by (induction s) auto

lemma has_shape_append_left: "has_shape lit ys \<Longrightarrow> has_shape lit (xs @ ys)"
  by (induction xs) auto

lemma shape_here_append: "shape_here lit xs \<Longrightarrow> shape_here lit (xs @ ys)"
  unfolding shape_here_iff by auto

lemma has_shape_append_right: "has_shape lit xs \<Longrightarrow> has_shape lit (xs @ ys)"
proof (induction xs)
  case Nil then show ?case by simp
next
  case (Cons c cs)
  then show ?case using shape_here_append[of lit "c # cs" ys] by auto
qed

lemma search_digits_leftmost:
  assumes "\<not> has_shape lit (pre @ lit)" "ds \<noteq> []" "list_all is_digit ds"
    and "case post of [] \<Rightarrow> True | c # _ \<Rightarrow> \<not> is_digit c"
  shows "search_digits lit (pre @ lit @ ds @ post) = Some ds"
  using assms(1)
proof (induction pre)
  case Nil
  from assms(2) obtain d ds' where ds: "ds = d # ds'" by (cases ds) auto
  with assms(3) have d: "is_digit d" by simp
  have sh: "shape_here lit (lit @ ds @ post)"
    using ds d by (auto simp: shape_here_iff)
  have tw: "takeWhile is_digit (ds @ post) = ds"
    using assms(3,4) by (cases post) (auto simp: list_all_iff takeWhile_append2 takeWhile_eq_all_conv)
  have ne: "lit @ ds @ post \<noteq> []" using assms(2) by simp
  then obtain c cs where c: "lit @ ds @ post = c # cs" by (cases "lit @ ds @ post") auto
  have "search_digits lit (c # cs) = Some (takeWhile is_digit (drop (length lit) (c # cs)))"
    using sh c by simp
  then show ?case using c tw by (metis append_Nil append_eq_conv_conj)
next
  case (Cons p pre)
  have n1: "\<not> shape_here lit ((p # pre) @ lit)" and n2: "\<not> has_shape lit (pre @ lit)"
    using Cons.prems by auto
  have "\<not> shape_here lit (p # pre @ lit @ ds @ post)"
  proof
    assume "shape_here lit (p # pre @ lit @ ds @ post)"
    then obtain d rest where e: "p # pre @ lit @ ds @ post = lit @ d # rest" and d: "is_digit d"
      by (auto simp: shape_here_iff)
    have "take (Suc (length lit)) (p # pre @ lit @ ds @ post) = take (Suc (length lit)) ((p # pre) @ lit)"
      by simp
    moreover have "take (Suc (length lit)) (lit @ d # rest) = lit @ [d]" by simp
    ultimately have "take (Suc (length lit)) ((p # pre) @ lit) = lit @ [d]" using e by simp
    then have "(p # pre) @ lit = lit @ d # drop (Suc (length lit)) ((p # pre) @ lit)"
      by (metis append_take_drop_id append.assoc append_Cons append_Nil)
    with d have "shape_here lit ((p # pre) @ lit)" unfolding shape_here_iff by blast
    with n1 show False by simp
  qed
  then show ?case using Cons.IH[OF n2] by simp
qed

lemma is_digit_bounds:
  "is_digit c \<Longrightarrow>
     (48 \<le> c \<and> c \<le> 57) \<or> (1632 \<le> c \<and> c \<le> 4249) \<or> (6112 \<le> c \<and> c \<le> 7257) \<or> 42528 \<le> c"
  unfolding is_digit_def decimal_ranges_def
  by (simp split: if_splits) linarith

lemma is_space_bounds:
  "is_space c \<Longrightarrow> c \<le> 32 \<or> c = 133 \<or> c = 160 \<or> c = 5760 \<or> (8192 \<le> c \<and> c \<le> 12288)"
  unfolding is_space_def by linarith

lemma digit_not_space: "is_digit c \<Longrightarrow> \<not> is_space c"
  using is_digit_bounds[of c] is_space_bounds[of c] by linarith

lemma rstrip_decomp: "t = rev (dropWhile P (rev t)) @ rev (takeWhile P (rev t))"
  by (metis rev_append rev_rev_ident takeWhile_dropWhile_id)

lemma strip_py_infix: "\<exists>ws1 ws2. s = ws1 @ strip_py s @ ws2"
proof -
  have "dropWhile is_space s = strip_py s @ rev (takeWhile is_space (rev (dropWhile is_space s)))"
    unfolding strip_py_def by (rule rstrip_decomp)
  moreover have "s = takeWhile is_space s @ dropWhile is_space s" by simp
  ultimately show ?thesis by metis
qed

lemma has_shape_strip_py: "has_shape lit (strip_py s) \<Longrightarrow> has_shape lit s"
proof -
  assume h: "has_shape lit (strip_py s)"
  obtain ws1 ws2 where s: "s = ws1 @ strip_py s @ ws2" using strip_py_infix by blast
  have "has_shape lit (ws1 @ strip_py s @ ws2)"
    using h by (intro has_shape_append_left has_shape_append_right)
  with s show ?thesis by simp
qed

lemma dropWhile_keep: "xs \<noteq> [] \<Longrightarrow> \<not> P (hd xs) \<Longrightarrow> dropWhile P (ys @ xs) = dropWhile P ys @ xs"
  by (cases xs) (auto simp: dropWhile_append)

lemma strip_py_shape:
  assumes "lit \<noteq> []" "\<not> is_space (hd lit)" "ds \<noteq> []" "list_all is_digit ds"
  shows "strip_py (pre @ lit @ ds @ post) =
         dropWhile is_space pre @ lit @ ds @ rev (dropWhile is_space (rev post))"
proof -
  have a: "dropWhile is_space (pre @ lit @ ds @ post) = dropWhile is_space pre @ lit @ ds @ post"
    using dropWhile_keep[of "lit @ ds @ post" is_space pre] assms(1,2) by simp
  have "is_digit (last ds)" using assms(3,4) by (simp add: list_all_iff)
  then have l: "\<not> is_space (hd (rev ds @ rev lit @ rev (dropWhile is_space pre)))"
    using assms(3) by (simp add: hd_rev digit_not_space)
  have "dropWhile is_space (rev post @ rev ds @ rev lit @ rev (dropWhile is_space pre)) =
        dropWhile is_space (rev post) @ rev ds @ rev lit @ rev (dropWhile is_space pre)"
    using dropWhile_keep[of "rev ds @ rev lit @ rev (dropWhile is_space pre)" is_space "rev post"] l assms(3)
    by simp
  then show ?thesis by (simp add: strip_py_def a)
qed

lemma rstrip_head:
  assumes "case post of [] \<Rightarrow> True | c # _ \<Rightarrow> \<not> is_digit c"
  shows "case rev (dropWhile is_space (rev post)) of [] \<Rightarrow> True | c # _ \<Rightarrow> \<not> is_digit c"
proof -
  have "post = rev (dropWhile is_space (rev post)) @ rev (takeWhile is_space (rev post))"
    by (rule rstrip_decomp)
  then show ?thesis using assms
    by (cases "rev (dropWhile is_space (rev post))"; cases post) (auto split: list.splits)
qed

lemma first_match_index:
  "i < length ps \<Longrightarrow> \<forall>j<i. search_digits (ps ! j) raw = None \<Longrightarrow>
   search_digits (ps ! i) raw = Some ds \<Longrightarrow> first_match ps raw = Some ds"
proof (induction ps arbitrary: i)
  case Nil then show ?case by simp
next
  case (Cons p ps)
  show ?case
  proof (cases i)
    case 0
    with Cons.prems show ?thesis by simp
  next
    case (Suc k)
    have "search_digits p raw = None" using Cons.prems(2) Suc by auto
    moreover have "first_match ps raw = Some ds"
    proof (rule Cons.IH)
      show "k < length ps" using Cons.prems(1) Suc by simp
      show "\<forall>j<k. search_digits (ps ! j) raw = None"
        using Cons.prems(2) Suc by auto
      show "search_digits (ps ! k) raw = Some ds" using Cons.prems(3) Suc by simp
    qed
    ultimately show ?thesis by simp
  qed
qed

lemma first_match_None:
  "first_match ps raw = None \<longleftrightarrow> (\<forall>p\<in>set ps. \<not> has_shape p raw)"
proof (induction ps)
  case Nil then show ?case by simp
next
  case (Cons p ps)
  show ?case
  proof (cases "search_digits p raw")
    case None
    then have "\<not> has_shape p raw" by (simp add: search_digits_None)
    with None Cons.IH show ?thesis by simp
  next
    case (Some ds)
    then have "has_shape p raw" using search_digits_None[of p raw] by simp
    with Some show ?thesis by simp
  qed
qed

lemma patterns_nonspace: "i < length patterns \<Longrightarrow> patterns ! i \<noteq> [] \<and> \<not> is_space (hd (patterns ! i))"
  by (auto simp: patterns_def asc_def is_space_def nth_Cons split: nat.splits)

text \<open>
  Claim C2. Let the host of the (stripped) URL not contain the shortening domain
  \<open>naver.me\<close>, so that no redirect is followed. If the URL contains one of the shapes
  \<open>/entry/place/<digits>\<close>, \<open>/place/<digits>\<close>, \<open>placeId=<digits>\<close> (the digits being a
  whole run: non-empty, and not followed by a further digit), this is the leftmost
  occurrence of that shape, and no shape earlier in the pattern list occurs anywhere in
  the URL, then \<open>extract_place_id\<close> returns exactly the digits. So the patterns are
  tried in the order of the list and the first match's capture is returned.
\<close>

theorem extract_place_id_first_shape:
  assumes host: "url_host env (strip_py url) = Inr host"
    and no_short: "\<not> str_contains (asc ''naver.me'') host"
    and idx: "i < length patterns"
    and url: "url = pre @ patterns ! i @ ds @ post"
    and ds: "ds \<noteq> []" "list_all is_digit ds"
    and post: "case post of [] \<Rightarrow> True | c # _ \<Rightarrow> \<not> is_digit c"
    and leftmost: "\<not> has_shape (patterns ! i) (pre @ patterns ! i)"
    and earlier: "\<forall>j<i. \<not> has_shape (patterns ! j) url"
  shows "extract_place_id env url = Inr ds"
proof -
  let ?lit = "patterns ! i"
  let ?pre = "dropWhile is_space pre"
  let ?post = "rev (dropWhile is_space (rev post))"
  have lit: "?lit \<noteq> []" "\<not> is_space (hd ?lit)" using patterns_nonspace[OF idx] by auto
  have raw: "strip_py url = ?pre @ ?lit @ ds @ ?post"
    unfolding url by (rule strip_py_shape[OF lit ds])
  have ne: "strip_py url \<noteq> []" using raw ds by simp
  have "has_shape ?lit (?pre @ ?lit) \<Longrightarrow> has_shape ?lit (pre @ ?lit)"
    by (metis has_shape_append_left takeWhile_dropWhile_id append.assoc)
  then have "\<not> has_shape ?lit (?pre @ ?lit)"
    using leftmost by blast
  then have found: "search_digits ?lit (strip_py url) = Some ds"
    unfolding raw using ds rstrip_head[OF post] by (intro search_digits_leftmost)
  have "\<forall>j<i. search_digits (patterns ! j) (strip_py url) = None"
    using earlier has_shape_strip_py by (auto simp: search_digits_None)
  then have "first_match patterns (strip_py url) = Some ds"
    using idx found by (intro first_match_index)
  then show ?thesis
    using host no_short ne by (simp add: extract_place_id_def)
qed

text \<open>
  The shape \<open>/place/<digits>\<close> in a mobile place URL with a leading blank: the first
  pattern does not occur, the second does, and the identifier is returned. And a URL
  where \<open>placeId=222\<close> stands before \<open>/place/111\<close>: the second pattern of the list is
  tried before the third, so 111 is returned.
\<close>

theorem extract_place_id_first_shape_witness:
  "extract_place_id env_place (asc '' https://m.place.naver.com/place/1234567/home'') =
     Inr (asc ''1234567'') \<and>
   extract_place_id env_place (asc ''https://m.place.naver.com/?placeId=222&back=/place/111'') =
     Inr (asc ''111'')"
proof
  have u: "asc '' https://m.place.naver.com/place/1234567/home'' =
           asc '' https://m.place.naver.com'' @ patterns ! 1 @ asc ''1234567'' @ asc ''/home''"
    by (simp add: asc_def patterns_def)
  show "extract_place_id env_place (asc '' https://m.place.naver.com/place/1234567/home'') =
     Inr (asc ''1234567'')"
  proof (rule extract_place_id_first_shape[where i = 1 and host = "asc ''m.place.naver.com''", OF _ _ _ u])
    show "url_host env_place (strip_py (asc '' https://m.place.naver.com/place/1234567/home'')) =
          Inr (asc ''m.place.naver.com'')"
      by (simp add: env_place_def)
    show "\<not> str_contains (asc ''naver.me'') (asc ''m.place.naver.com'')"
      by (simp add: asc_def)
    show "1 < length patterns" by (simp add: patterns_def)
    show "asc ''1234567'' \<noteq> []" by (simp add: asc_def)
    show "list_all is_digit (asc ''1234567'')" by (simp add: asc_def is_digit_def)
    show "case asc ''/home'' of [] \<Rightarrow> True | c # _ \<Rightarrow> \<not> is_digit c"
      by (simp add: asc_def is_digit_def)
    show "\<not> has_shape (patterns ! 1) (asc '' https://m.place.naver.com'' @ patterns ! 1)"
      by (simp add: asc_def patterns_def shape_here_def)
    show "\<forall>j<1. \<not> has_shape (patterns ! j) (asc '' https://m.place.naver.com/place/1234567/home'')"
      by (simp add: asc_def patterns_def shape_here_def)
  qed
next
  have u: "asc ''https://m.place.naver.com/?placeId=222&back=/place/111'' =
           asc ''https://m.place.naver.com/?placeId=222&back='' @ patterns ! 1 @ asc ''111'' @ []"
    by (simp add: asc_def patterns_def)
  show "extract_place_id env_place (asc ''https://m.place.naver.com/?placeId=222&back=/place/111'') =
     Inr (asc ''111'')"
  proof (rule extract_place_id_first_shape[where i = 1 and host = "asc ''m.place.naver.com''", OF _ _ _ u])
    show "url_host env_place (strip_py (asc ''https://m.place.naver.com/?placeId=222&back=/place/111'')) =
          Inr (asc ''m.place.naver.com'')"
      by (simp add: env_place_def)
    show "\<not> str_contains (asc ''naver.me'') (asc ''m.place.naver.com'')"
      by (simp add: asc_def)
    show "1 < length patterns" by (simp add: patterns_def)
    show "asc ''111'' \<noteq> []" by (simp add: asc_def)
    show "list_all is_digit (asc ''111'')" by (simp add: asc_def is_digit_def)
    show "case [] :: ustr of [] \<Rightarrow> True | c # _ \<Rightarrow> \<not> is_digit c" by simp
    show "\<not> has_shape (patterns ! 1)
            (asc ''https://m.place.naver.com/?placeId=222&back='' @ patterns ! 1)"
      by (simp add: asc_def patterns_def shape_here_def)
    show "\<forall>j<1. \<not> has_shape (patterns ! j)
            (asc ''https://m.place.naver.com/?placeId=222&back=/place/111'')"
      by (simp add: asc_def patterns_def shape_here_def)
  qed
qed

text \<open>
  Claim C3, as the code has it. An empty or whitespace-only URL fails with the "URL is
  empty" message. A URL that is not blank, whose host is computed, and in whose resolved
  form (the stripped URL itself, or the redirect target when the host contains
  \<open>naver.me\<close>) no identifier pattern matches, fails with the "placeId not found"
  message. Both failures are raised as the one class \<open>ValueError\<close>; they differ in
  their message only.
\<close>

theorem extract_place_id_failures:
  "(strip_py url = [] \<longrightarrow> extract_place_id env url = Inl (Exc ValueError msg_url_empty)) \<and>
   (strip_py url \<noteq> [] \<and> url_host env (strip_py url) = Inr host \<and>
    (if str_contains (asc ''naver.me'') host then follow_redirect env (strip_py url)
     else Inr (strip_py url)) = Inr raw' \<and>
    (\<forall>p\<in>set patterns. \<not> has_shape p raw') \<longrightarrow>
      extract_place_id env url = Inl (Exc ValueError msg_place_id_not_found)) \<and>
   exc_class (Exc ValueError msg_url_empty) = exc_class (Exc ValueError msg_place_id_not_found) \<and>
   msg_url_empty \<noteq> msg_place_id_not_found"
proof (intro conjI impI)
  assume "strip_py url = []"
  then show "extract_place_id env url = Inl (Exc ValueError msg_url_empty)"
    by (simp add: extract_place_id_def)
next
  assume a: "strip_py url \<noteq> [] \<and> url_host env (strip_py url) = Inr host \<and>
    (if str_contains (asc ''naver.me'') host then follow_redirect env (strip_py url)
     else Inr (strip_py url)) = Inr raw' \<and>
    (\<forall>p\<in>set patterns. \<not> has_shape p raw')"
  then have "first_match patterns raw' = None" by (simp add: first_match_None)
  with a show "extract_place_id env url = Inl (Exc ValueError msg_place_id_not_found)"
    by (simp add: extract_place_id_def)
next
  show "exc_class (Exc ValueError msg_url_empty) = exc_class (Exc ValueError msg_place_id_not_found)"
    by simp
next
  show "msg_url_empty \<noteq> msg_place_id_not_found"
    by (simp add: msg_url_empty_def msg_place_id_not_found_def)
qed

text \<open>A whitespace-only URL, and a URL of another site that carries no identifier.\<close>

theorem extract_place_id_failures_witness:
  "extract_place_id env_example (asc ''   '') = Inl (Exc ValueError msg_url_empty) \<and>
   extract_place_id env_example (asc ''https://example.com/'') =
     Inl (Exc ValueError msg_place_id_not_found)"
proof
  have "strip_py (asc ''   '') = []" by (simp add: strip_py_def asc_def is_space_def)
  then show "extract_place_id env_example (asc ''   '') = Inl (Exc ValueError msg_url_empty)"
    using extract_place_id_failures[of "asc ''   ''" env_example] by blast
next
  let ?u = "asc ''https://example.com/''"
  have s: "strip_py ?u = ?u" by (simp add: strip_py_def asc_def is_space_def)
  have "strip_py ?u \<noteq> [] \<and> url_host env_example (strip_py ?u) = Inr (asc ''example.com'') \<and>
    (if str_contains (asc ''naver.me'') (asc ''example.com'') then follow_redirect env_example (strip_py ?u)
     else Inr (strip_py ?u)) = Inr ?u \<and>
    (\<forall>p\<in>set patterns. \<not> has_shape p ?u)"
    unfolding s by (simp add: env_example_def asc_def patterns_def shape_here_def)
  then show "extract_place_id env_example ?u = Inl (Exc ValueError msg_place_id_not_found)"
    using extract_place_id_failures[of ?u env_example "asc ''example.com''" ?u] by blast
qed

text \<open>
  Claim C3 as stated fails. The failure on the empty URL and the failure on a URL without
  an identifier are of the same error kind. And a short link, a non-empty URL in which no
  identifier pattern matches, does not fail when its redirect target carries an
  identifier.
\<close>

theorem extract_place_id_one_error_class:
  "extract_place_id env_example [] = Inl (Exc ValueError msg_url_empty) \<and>
   extract_place_id env_example (asc ''https://example.com/'') =
     Inl (Exc ValueError msg_place_id_not_found) \<and>
   \<not> (exc_class (Exc ValueError msg_url_empty) \<noteq> exc_class (Exc ValueError msg_place_id_not_found)) \<and>
   first_match patterns (asc ''https://naver.me/abc'') = None \<and>
   extract_place_id env_short (asc ''https://naver.me/abc'') = Inr (asc ''1234567'')"
  by (simp add: extract_place_id_def strip_py_def env_example_def env_short_def asc_def
      is_space_def patterns_def shape_here_def is_digit_def)


section \<open>The section text extractor\<close>

lemmas noise_defs = noise_actions_def action_hit_count_def action_tokens_def
  noise_suggest_edit_def noise_menu_image_def too_short_def tok_depart_def tok_arrive_def
  tok_save_def tok_street_view_def tok_share_def phrase_alert_subscribe_def
  phrase_close_page_def phrase_suggest_edit_def phrase_menu_image_def

lemmas norm_defs = normalize_text_def strip_py_def cr_to_lf_def is_space_def

lemma normalize_ex_actions: "normalize_text ex_actions_text = ex_actions_text"
  by (simp add: norm_defs ex_actions_text_def)

lemma normalize_ex_short: "normalize_text ex_short_text = ex_short_text"
  by (simp add: norm_defs ex_short_text_def)

lemma normalize_ex_hours: "normalize_text ex_hours_text = ex_hours_text"
  by (simp add: norm_defs ex_hours_text_def)

lemma noise_ex_actions: "noise_actions ex_actions_text" "action_hit_count ex_actions_text = 5"
  by (simp_all add: noise_defs ex_actions_text_def)

lemma noise_ex_short:
  "\<not> noise_actions ex_short_text" "\<not> noise_suggest_edit ex_short_text"
  "\<not> noise_menu_image ex_short_text" "too_short ex_short_text" "length ex_short_text = 2"
  by (simp_all add: noise_defs ex_short_text_def)

lemma noise_ex_hours:
  "\<not> noise_actions ex_hours_text" "\<not> noise_suggest_edit ex_hours_text"
  "\<not> noise_menu_image ex_hours_text" "\<not> too_short ex_hours_text" "ex_hours_text \<noteq> []"
  by (simp_all add: noise_defs ex_hours_text_def)

lemma clean_ex_actions: "clean_block \<lparr>block_title = t, block_text = Some ex_actions_text\<rparr> = None"
  by (simp add: clean_block_def or_empty_def normalize_ex_actions noise_ex_actions Let_def)

lemma clean_ex_short: "clean_block \<lparr>block_title = t, block_text = Some ex_short_text\<rparr> = None"
  by (simp add: clean_block_def or_empty_def normalize_ex_short noise_ex_short Let_def)

lemma clean_ex_hours_any:
  "clean_block \<lparr>block_title = t, block_text = Some ex_hours_text\<rparr> \<noteq> None"
  by (simp add: clean_block_def or_empty_def normalize_ex_hours noise_ex_hours Let_def)

lemma clean_ex_hours:
  "clean_block \<lparr>block_title = None, block_text = Some ex_hours_text\<rparr> = Some ex_hours_text"
  by (simp add: clean_block_def or_empty_def normalize_ex_hours noise_ex_hours Let_def
      strip_py_def sub_trailing_digits_def)

text \<open>
  Claim C4. Whatever its header, the action bar block is discarded, and so is the block
  "short": none of the phrase rules applies to it, its normalised text has 2 characters,
  fewer than 10. The business hours block is never discarded; without a header it is
  kept as its normalised text, which is the text itself. A crawl that delivers the three
  blocks yields exactly the business hours text.
\<close>

theorem noise_filter_samples:
  "clean_block \<lparr>block_title = t, block_text = Some ex_actions_text\<rparr> = None \<and>
   clean_block \<lparr>block_title = t, block_text = Some ex_short_text\<rparr> = None \<and>
   \<not> noise_actions (normalize_text ex_short_text) \<and>
   \<not> noise_suggest_edit (normalize_text ex_short_text) \<and>
   \<not> noise_menu_image (normalize_text ex_short_text) \<and>
   length (normalize_text ex_short_text) = 2 \<and>
   clean_block \<lparr>block_title = t, block_text = Some ex_hours_text\<rparr> \<noteq> None \<and>
   clean_block \<lparr>block_title = None, block_text = Some ex_hours_text\<rparr> =
     Some (normalize_text ex_hours_text) \<and>
   normalize_text ex_hours_text = ex_hours_text \<and>
   sections_text [\<lparr>block_title = None, block_text = Some ex_actions_text\<rparr>,
                  \<lparr>block_title = None, block_text = Some ex_short_text\<rparr>,
                  \<lparr>block_title = None, block_text = Some ex_hours_text\<rparr>] = ex_hours_text"
  by (simp add: clean_ex_actions clean_ex_short clean_ex_hours clean_ex_hours_any
      normalize_ex_short normalize_ex_hours noise_ex_short sections_text_def)

lemma strip_py_last_nonspace: "strip_py s \<noteq> [] \<Longrightarrow> \<not> is_space (last (strip_py s))"
proof -
  assume a: "strip_py s \<noteq> []"
  let ?xs = "dropWhile is_space (rev (dropWhile is_space s))"
  have "?xs \<noteq> []" using a by (simp add: strip_py_def)
  then have "\<not> is_space (hd ?xs)" by (rule hd_dropWhile)
  moreover have "last (strip_py s) = hd ?xs"
    using \<open>?xs \<noteq> []\<close> by (simp add: strip_py_def last_rev)
  ultimately show ?thesis by simp
qed

lemma sub_trailing_digits_split:
  assumes "list_all is_digit ds" "base = [] \<or> \<not> is_digit (last base)"
    and "base @ ds = [] \<or> last (base @ ds) \<noteq> 10"
  shows "sub_trailing_digits (base @ ds) = base"
proof -
  have d: "dropWhile is_digit (rev ds @ rev base) = dropWhile is_digit (rev base)"
    using assms(1) by (simp add: dropWhile_append list_all_iff)
  have "dropWhile is_digit (rev base) = rev base"
  proof (cases base rule: rev_cases)
    case Nil then show ?thesis by simp
  next
    case (snoc ys y)
    with assms(2) show ?thesis by simp
  qed
  with d have "rev (dropWhile is_digit (rev (base @ ds))) = base" by simp
  with assms(3) show ?thesis by (auto simp: sub_trailing_digits_def)
qed

text \<open>
  Claim C7. Let the header of a kept block, trimmed, be \<open>base\<close> followed by its trailing
  digits \<open>ds\<close>. The cleaned header is \<open>base\<close> (trimmed again). If it is non-empty and the
  normalised body does not start with it, the output is the header, a line feed and the
  body; otherwise the output is the body alone.
\<close>

theorem clean_block_header:
  assumes title: "strip_py (or_empty (block_title b)) = base @ ds"
    and ds: "list_all is_digit ds"
    and base: "base = [] \<or> \<not> is_digit (last base)"
    and kept: "clean_block b = Some out"
  shows "out =
     (if strip_py base \<noteq> [] \<and>
         \<not> prefix (strip_py base) (normalize_text (or_empty (block_text b)))
      then strip_py base @ [10] @ normalize_text (or_empty (block_text b))
      else normalize_text (or_empty (block_text b)))"
proof -
  have "base @ ds = [] \<or> last (base @ ds) \<noteq> 10"
  proof (cases "base @ ds = []")
    case True then show ?thesis by simp
  next
    case False
    then have "\<not> is_space (last (base @ ds))"
      using strip_py_last_nonspace[of "or_empty (block_title b)"] title by simp
    then show ?thesis by (auto simp: is_space_def)
  qed
  then have "sub_trailing_digits (base @ ds) = base"
    using ds base by (intro sub_trailing_digits_split)
  then show ?thesis
    using kept title by (auto simp: clean_block_def Let_def split: if_splits)
qed

text \<open>
  The header "menu2" over a body that begins with "menu": the body alone. The header
  "business info" over a body that does not begin with it: header, line feed, body.
\<close>

theorem clean_block_header_witness:
  "clean_block \<lparr>block_title = Some ex_menu_header, block_text = Some ex_menu_body\<rparr> =
     Some ex_menu_body \<and>
   clean_block \<lparr>block_title = Some ex_hours_header, block_text = Some ex_hours_body\<rparr> =
     Some (ex_hours_header @ [10] @ ex_hours_body)"
proof
  let ?b = "\<lparr>block_title = Some ex_menu_header, block_text = Some ex_menu_body\<rparr>"
  have n: "normalize_text (or_empty (block_text ?b)) = ex_menu_body"
    by (simp add: norm_defs or_empty_def ex_menu_body_def)
  have "clean_block ?b \<noteq> None"
    using n by (simp add: clean_block_def Let_def) (simp add: noise_defs ex_menu_body_def)
  then obtain out where k: "clean_block ?b = Some out" by blast
  have t: "strip_py (or_empty (block_title ?b)) = label_menu @ [50]"
    by (simp add: or_empty_def strip_py_def is_space_def ex_menu_header_def label_menu_def)
  have d: "list_all is_digit [50]" by (simp add: is_digit_def)
  have l: "label_menu = [] \<or> \<not> is_digit (last label_menu)"
    by (simp add: label_menu_def is_digit_def decimal_ranges_def)
  have s: "strip_py label_menu = label_menu"
    by (simp add: strip_py_def is_space_def label_menu_def)
  have p: "prefix label_menu ex_menu_body"
    by (simp add: label_menu_def ex_menu_body_def)
  have "out = ex_menu_body"
    using clean_block_header[OF t d l k] unfolding n s by (simp add: p)
  with k show "clean_block ?b = Some ex_menu_body" by simp
next
  let ?b = "\<lparr>block_title = Some ex_hours_header, block_text = Some ex_hours_body\<rparr>"
  have n: "normalize_text (or_empty (block_text ?b)) = ex_hours_body"
    by (simp add: norm_defs or_empty_def ex_hours_body_def)
  have "clean_block ?b \<noteq> None"
    using n by (simp add: clean_block_def Let_def) (simp add: noise_defs ex_hours_body_def)
  then obtain out where k: "clean_block ?b = Some out" by blast
  have t: "strip_py (or_empty (block_title ?b)) = ex_hours_header @ []"
    by (simp add: or_empty_def strip_py_def is_space_def ex_hours_header_def)
  have d: "list_all is_digit []" by simp
  have l: "ex_hours_header = [] \<or> \<not> is_digit (last ex_hours_header)"
    by (simp add: ex_hours_header_def is_digit_def decimal_ranges_def)
  have s: "strip_py ex_hours_header = ex_hours_header"
    by (simp add: strip_py_def is_space_def ex_hours_header_def)
  have p: "ex_hours_header \<noteq> [] \<and> \<not> prefix ex_hours_header ex_hours_body"
    by (simp add: ex_hours_header_def ex_hours_body_def)
  have "out = ex_hours_header @ [10] @ ex_hours_body"
    using clean_block_header[OF t d l k] unfolding n s by (simp add: p)
  with k show "clean_block ?b = Some (ex_hours_header @ [10] @ ex_hours_body)" by simp
qed


section \<open>The field merger\<close>

lemma keys_distinct:
  "distinct [key_place_name, key_business_hours, key_location_info,
             key_home_tab_info, key_menu_tab_info, key_info_tab_info,
             key_news_tab_info, key_parking_or_tips, key_target_keyword]"
  by (simp add: asc_def key_place_name_def key_business_hours_def key_location_info_def
      key_home_tab_info_def key_menu_tab_info_def key_info_tab_info_def key_news_tab_info_def
      key_parking_or_tips_def key_target_keyword_def)

lemma keys_neq:
  "key_place_name \<noteq> key_business_hours" "key_place_name \<noteq> key_location_info"
  "key_place_name \<noteq> key_home_tab_info" "key_place_name \<noteq> key_menu_tab_info"
  "key_place_name \<noteq> key_info_tab_info" "key_place_name \<noteq> key_news_tab_info"
  "key_place_name \<noteq> key_parking_or_tips" "key_place_name \<noteq> key_target_keyword"
  "key_business_hours \<noteq> key_place_name" "key_business_hours \<noteq> key_location_info"
  "key_business_hours \<noteq> key_home_tab_info" "key_business_hours \<noteq> key_menu_tab_info"
  "key_business_hours \<noteq> key_info_tab_info" "key_business_hours \<noteq> key_news_tab_info"
  "key_business_hours \<noteq> key_parking_or_tips" "key_business_hours \<noteq> key_target_keyword"
  "key_location_info \<noteq> key_place_name" "key_location_info \<noteq> key_business_hours"
  "key_location_info \<noteq> key_home_tab_info" "key_location_info \<noteq> key_menu_tab_info"
  "key_location_info \<noteq> key_info_tab_info" "key_location_info \<noteq> key_news_tab_info"
  "key_location_info \<noteq> key_parking_or_tips" "key_location_info \<noteq> key_target_keyword"
  "key_home_tab_info \<noteq> key_place_name" "key_home_tab_info \<noteq> key_business_hours"
  "key_home_tab_info \<noteq> key_location_info" "key_home_tab_info \<noteq> key_menu_tab_info"
  "key_home_tab_info \<noteq> key_info_tab_info" "key_home_tab_info \<noteq> key_news_tab_info"
  "key_home_tab_info \<noteq> key_parking_or_tips" "key_home_tab_info \<noteq> key_target_keyword"
  "key_menu_tab_info \<noteq> key_place_name" "key_menu_tab_info \<noteq> key_business_hours"
  "key_menu_tab_info \<noteq> key_location_info" "key_menu_tab_info \<noteq> key_home_tab_info"
  "key_menu_tab_info \<noteq> key_info_tab_info" "key_menu_tab_info \<noteq> key_news_tab_info"
  "key_menu_tab_info \<noteq> key_parking_or_tips" "key_menu_tab_info \<noteq> key_target_keyword"
  "key_info_tab_info \<noteq> key_place_name" "key_info_tab_info \<noteq> key_business_hours"
  "key_info_tab_info \<noteq> key_location_info" "key_info_tab_info \<noteq> key_home_tab_info"
  "key_info_tab_info \<noteq> key_menu_tab_info" "key_info_tab_info \<noteq> key_news_tab_info"
  "key_info_tab_info \<noteq> key_parking_or_tips" "key_info_tab_info \<noteq> key_target_keyword"
  "key_news_tab_info \<noteq> key_place_name" "key_news_tab_info \<noteq> key_business_hours"
  "key_news_tab_info \<noteq> key_location_info" "key_news_tab_info \<noteq> key_home_tab_info"
  "key_news_tab_info \<noteq> key_menu_tab_info" "key_news_tab_info \<noteq> key_info_tab_info"
  "key_news_tab_info \<noteq> key_parking_or_tips" "key_news_tab_info \<noteq> key_target_keyword"
  "key_parking_or_tips \<noteq> key_place_name" "key_parking_or_tips \<noteq> key_business_hours"
  "key_parking_or_tips \<noteq> key_location_info" "key_parking_or_tips \<noteq> key_home_tab_info"
  "key_parking_or_tips \<noteq> key_menu_tab_info" "key_parking_or_tips \<noteq> key_info_tab_info"
  "key_parking_or_tips \<noteq> key_news_tab_info" "key_parking_or_tips \<noteq> key_target_keyword"
  "key_target_keyword \<noteq> key_place_name" "key_target_keyword \<noteq> key_business_hours"
  "key_target_keyword \<noteq> key_location_info" "key_target_keyword \<noteq> key_home_tab_info"
  "key_target_keyword \<noteq> key_menu_tab_info" "key_target_keyword \<noteq> key_info_tab_info"
  "key_target_keyword \<noteq> key_news_tab_info" "key_target_keyword \<noteq> key_parking_or_tips"
  using keys_distinct by auto

text \<open>Each statement leaves every key but its own alone.\<close>

lemma fill_if_empty_other: "k \<noteq> k' \<Longrightarrow> fill_if_empty k' v m k = m k"
  by (simp add: fill_if_empty_def)

lemma fill_if_empty_same: "fill_if_empty k v m k = (if truthy m k then m k else Some v)"
  by (simp add: fill_if_empty_def)

lemma backfill_place_name_other:
  "k \<noteq> key_place_name \<Longrightarrow> backfill_place_name c m k = m k"
  by (simp add: backfill_place_name_def Let_def)

lemma backfill_business_hours_other:
  "k \<noteq> key_business_hours \<Longrightarrow> backfill_business_hours c m k = m k"
  by (simp add: backfill_business_hours_def Let_def)

lemma append_location_info_other:
  "k \<noteq> key_location_info \<Longrightarrow> append_location_info c m k = m k"
  by (simp add: append_location_info_def Let_def)

lemma backfill_tab_texts_other:
  "k \<notin> set [key_home_tab_info, key_menu_tab_info, key_info_tab_info, key_news_tab_info] \<Longrightarrow>
   backfill_tab_texts c m k = m k"
  by (simp add: backfill_tab_texts_def Let_def fill_if_empty_other)

lemma backfill_parking_or_tips_other:
  "k \<noteq> key_parking_or_tips \<Longrightarrow> backfill_parking_or_tips c m k = m k"
  by (simp add: backfill_parking_or_tips_def Let_def)

lemma backfill_target_keyword_other:
  "k \<noteq> key_target_keyword \<Longrightarrow> backfill_target_keyword m k = m k"
  by (simp add: backfill_target_keyword_def)

lemmas step_other = backfill_place_name_other backfill_business_hours_other
  append_location_info_other backfill_tab_texts_other backfill_parking_or_tips_other
  backfill_target_keyword_other

lemmas merge_unfold = merge_blog_input_with_crawl_def Let_def truthy_def get_or_def

lemma merge_other:
  assumes "k \<notin> set [key_place_name, key_business_hours, key_location_info,
             key_home_tab_info, key_menu_tab_info, key_info_tab_info,
             key_news_tab_info, key_parking_or_tips, key_target_keyword]"
  shows "merge_blog_input_with_crawl d c k = d k"
  using assms by (simp add: merge_blog_input_with_crawl_def Let_def step_other)

lemma merge_place_name:
  "merge_blog_input_with_crawl d c key_place_name =
     (if guess_place_name (home_text c) \<noteq> [] \<and> \<not> truthy d key_place_name
      then Some (guess_place_name (home_text c)) else d key_place_name)"
proof -
  have "merge_blog_input_with_crawl d c key_place_name = backfill_place_name c d key_place_name"
    by (simp add: keys_neq merge_blog_input_with_crawl_def Let_def step_other)
  then show ?thesis by (simp add: backfill_place_name_def Let_def)
qed

lemma merge_business_hours:
  "merge_blog_input_with_crawl d c key_business_hours =
     (if guess_business_hours (home_text c @ [10] @ info_text c) \<noteq> [] \<and>
         \<not> truthy d key_business_hours
      then Some (guess_business_hours (home_text c @ [10] @ info_text c))
      else d key_business_hours)"
proof -
  have "merge_blog_input_with_crawl d c key_business_hours =
        backfill_business_hours c (backfill_place_name c d) key_business_hours"
    by (simp add: keys_neq merge_blog_input_with_crawl_def Let_def step_other)
  also have "\<dots> = (if guess_business_hours (home_text c @ [10] @ info_text c) \<noteq> [] \<and>
         \<not> truthy d key_business_hours
      then Some (guess_business_hours (home_text c @ [10] @ info_text c))
      else d key_business_hours)"
    by (simp add: keys_neq backfill_business_hours_def Let_def truthy_def step_other)
  finally show ?thesis .
qed

lemma merge_location_info:
  "merge_blog_input_with_crawl d c key_location_info =
     Some (if truthy d key_location_info
           then strip_py (get_or d key_location_info []) @ [10] @ map_link_label @ source_url c
           else map_link_label @ source_url c)"
proof -
  have "merge_blog_input_with_crawl d c key_location_info =
        append_location_info c (backfill_business_hours c (backfill_place_name c d)) key_location_info"
    by (simp add: keys_neq merge_blog_input_with_crawl_def Let_def step_other)
  also have "\<dots> = Some (if truthy d key_location_info
           then strip_py (get_or d key_location_info []) @ [10] @ map_link_label @ source_url c
           else map_link_label @ source_url c)"
    by (simp add: keys_neq append_location_info_def Let_def truthy_def get_or_def step_other)
  finally show ?thesis .
qed

lemma before_tabs:
  "k \<in> set [key_home_tab_info, key_menu_tab_info, key_info_tab_info, key_news_tab_info,
            key_parking_or_tips, key_target_keyword] \<Longrightarrow>
   append_location_info c (backfill_business_hours c (backfill_place_name c d)) k = d k"
  by (auto simp: keys_neq step_other)

lemma merge_tab_texts:
  "merge_blog_input_with_crawl d c key_home_tab_info =
     (if truthy d key_home_tab_info then d key_home_tab_info else Some (home_text c))"
  "merge_blog_input_with_crawl d c key_menu_tab_info =
     (if truthy d key_menu_tab_info then d key_menu_tab_info else Some (menu_text c))"
  "merge_blog_input_with_crawl d c key_info_tab_info =
     (if truthy d key_info_tab_info then d key_info_tab_info else Some (info_text c))"
  "merge_blog_input_with_crawl d c key_news_tab_info =
     (if truthy d key_news_tab_info then d key_news_tab_info else Some (news_text c))"
proof -
  let ?m = "append_location_info c (backfill_business_hours c (backfill_place_name c d))"
  have m: "\<And>k. k \<in> set [key_home_tab_info, key_menu_tab_info, key_info_tab_info,
              key_news_tab_info] \<Longrightarrow>
            merge_blog_input_with_crawl d c k = backfill_tab_texts c ?m k"
    by (auto simp: keys_neq merge_blog_input_with_crawl_def Let_def backfill_parking_or_tips_other
        backfill_target_keyword_other)
  show "merge_blog_input_with_crawl d c key_home_tab_info =
     (if truthy d key_home_tab_info then d key_home_tab_info else Some (home_text c))"
    by (simp add: keys_neq m backfill_tab_texts_def Let_def fill_if_empty_other fill_if_empty_same
        truthy_def before_tabs)
  show "merge_blog_input_with_crawl d c key_menu_tab_info =
     (if truthy d key_menu_tab_info then d key_menu_tab_info else Some (menu_text c))"
    by (simp add: keys_neq m backfill_tab_texts_def Let_def fill_if_empty_other fill_if_empty_same
        truthy_def before_tabs)
  show "merge_blog_input_with_crawl d c key_info_tab_info =
     (if truthy d key_info_tab_info then d key_info_tab_info else Some (info_text c))"
    by (simp add: keys_neq m backfill_tab_texts_def Let_def fill_if_empty_other fill_if_empty_same
        truthy_def before_tabs)
  show "merge_blog_input_with_crawl d c key_news_tab_info =
     (if truthy d key_news_tab_info then d key_news_tab_info else Some (news_text c))"
    by (simp add: keys_neq m backfill_tab_texts_def Let_def fill_if_empty_other fill_if_empty_same
        truthy_def before_tabs)
qed

lemma merge_parking_or_tips:
  "merge_blog_input_with_crawl d c key_parking_or_tips =
     (if \<not> truthy d key_parking_or_tips \<and> parking_tips (info_text c) \<noteq> []
      then Some (join [10] (take 6 (parking_tips (info_text c))))
      else d key_parking_or_tips)"
proof -
  let ?m = "backfill_tab_texts c
              (append_location_info c (backfill_business_hours c (backfill_place_name c d)))"
  have "merge_blog_input_with_crawl d c key_parking_or_tips =
        backfill_parking_or_tips c ?m key_parking_or_tips"
    by (simp add: keys_neq merge_blog_input_with_crawl_def Let_def backfill_target_keyword_other)
  moreover have "?m key_parking_or_tips = d key_parking_or_tips"
    by (simp add: keys_neq backfill_tab_texts_other before_tabs)
  ultimately show ?thesis
    by (simp add: backfill_parking_or_tips_def Let_def truthy_def)
qed

lemma merge_target_keyword:
  "merge_blog_input_with_crawl d c key_target_keyword =
     (if truthy d key_target_keyword then d key_target_keyword
      else Some (get_or (merge_blog_input_with_crawl d c) key_place_name []))"
proof -
  let ?m = "backfill_parking_or_tips c (backfill_tab_texts c
              (append_location_info c (backfill_business_hours c (backfill_place_name c d))))"
  have e: "merge_blog_input_with_crawl d c = backfill_target_keyword ?m"
    by (simp add: merge_blog_input_with_crawl_def Let_def)
  have t: "?m key_target_keyword = d key_target_keyword"
    by (simp add: keys_neq backfill_parking_or_tips_other backfill_tab_texts_other before_tabs)
  have p: "backfill_target_keyword ?m key_place_name = ?m key_place_name"
    by (simp add: keys_neq backfill_target_keyword_other)
  show ?thesis
    unfolding e using t p by (simp add: backfill_target_keyword_def truthy_def get_or_def)
qed

lemmas merge_at_key = merge_place_name merge_business_hours merge_tab_texts
  merge_parking_or_tips

lemma truthy_Some: "m k = Some v \<Longrightarrow> v \<noteq> [] \<Longrightarrow> truthy m k"
  by (simp add: truthy_def)

text \<open>
  Claim C1. For each of the eight backfill fields, a non-empty value of the input is the
  value of the merged result; and every key outside the nine fields the merger knows
  (the eight and \<open>location_info\<close>) has in the result what it has in the input: the
  same value, or no entry.
\<close>

theorem merge_backfill_only:
  "(k \<in> set [key_place_name, key_business_hours, key_home_tab_info, key_menu_tab_info,
              key_info_tab_info, key_news_tab_info, key_parking_or_tips, key_target_keyword] \<and>
    d k = Some v \<and> v \<noteq> [] \<longrightarrow> merge_blog_input_with_crawl d c k = Some v) \<and>
   (k \<notin> set [key_place_name, key_business_hours, key_location_info, key_home_tab_info,
              key_menu_tab_info, key_info_tab_info, key_news_tab_info, key_parking_or_tips,
              key_target_keyword] \<longrightarrow> merge_blog_input_with_crawl d c k = d k)"
proof (intro conjI impI)
  assume a: "k \<in> set [key_place_name, key_business_hours, key_home_tab_info, key_menu_tab_info,
              key_info_tab_info, key_news_tab_info, key_parking_or_tips, key_target_keyword] \<and>
    d k = Some v \<and> v \<noteq> []"
  then have t: "truthy d k" by (simp add: truthy_Some)
  from a consider "k = key_place_name" | "k = key_business_hours" | "k = key_home_tab_info"
    | "k = key_menu_tab_info" | "k = key_info_tab_info" | "k = key_news_tab_info"
    | "k = key_parking_or_tips" | "k = key_target_keyword" by auto
  then have "merge_blog_input_with_crawl d c k = d k"
    using t by cases (simp_all add: merge_at_key merge_target_keyword)
  with a show "merge_blog_input_with_crawl d c k = Some v" by simp
next
  assume "k \<notin> set [key_place_name, key_business_hours, key_location_info, key_home_tab_info,
              key_menu_tab_info, key_info_tab_info, key_news_tab_info, key_parking_or_tips,
              key_target_keyword]"
  then show "merge_blog_input_with_crawl d c k = d k" by (intro merge_other) simp
qed


text \<open>
  A record with a place name, an unknown field \<open>tone\<close> and a location, merged with a
  crawl whose home text would suggest another name.
\<close>

theorem merge_backfill_only_witness:
  "merge_blog_input_with_crawl ex_fields ex_crawl key_place_name = Some (asc ''My Cafe'') \<and>
   merge_blog_input_with_crawl ex_fields ex_crawl (asc ''tone'') = Some (asc ''info'')"
proof
  have "key_place_name \<in> set [key_place_name, key_business_hours, key_home_tab_info,
          key_menu_tab_info, key_info_tab_info, key_news_tab_info, key_parking_or_tips,
          key_target_keyword] \<and>
        ex_fields key_place_name = Some (asc ''My Cafe'') \<and> asc ''My Cafe'' \<noteq> []"
    by (simp add: ex_fields_def keys_neq) (simp add: key_place_name_def asc_def)
  then show "merge_blog_input_with_crawl ex_fields ex_crawl key_place_name = Some (asc ''My Cafe'')"
    using merge_backfill_only[of key_place_name ex_fields "asc ''My Cafe''" ex_crawl] by blast
next
  have n: "asc ''tone'' \<notin> set [key_place_name, key_business_hours, key_location_info,
          key_home_tab_info, key_menu_tab_info, key_info_tab_info, key_news_tab_info,
          key_parking_or_tips, key_target_keyword]"
    by (simp add: asc_def key_place_name_def key_business_hours_def key_location_info_def
        key_home_tab_info_def key_menu_tab_info_def key_info_tab_info_def
        key_news_tab_info_def key_parking_or_tips_def key_target_keyword_def)
  have "ex_fields (asc ''tone'') = Some (asc ''info'')"
    by (simp add: ex_fields_def key_location_info_def asc_def)
  then show "merge_blog_input_with_crawl ex_fields ex_crawl (asc ''tone'') = Some (asc ''info'')"
    using n merge_backfill_only[of "asc ''tone''" ex_fields _ ex_crawl] by simp
qed

text \<open>
  Claim C5, as the code has it. The result's \<open>location_info\<close> always ends with the map
  link line. If the input's value is non-empty, the result is that value with leading
  and trailing whitespace removed, a line feed, and the map link line; if it is empty or
  absent, the result is the map link line alone.
\<close>

theorem merge_location_info_appends:
  "merge_blog_input_with_crawl d c key_location_info =
     Some (if truthy d key_location_info
           then strip_py (get_or d key_location_info []) @ [10] @ map_link_label @ source_url c
           else map_link_label @ source_url c)"
  by (rule merge_location_info)

lemma source_url_ex_crawl: "source_url ex_crawl = asc ''https://x/y''"
  by (simp add: ex_crawl_def)

lemma strip_py_Seoul:
  "strip_py (asc ''Seoul'') = asc ''Seoul''" "strip_py (asc '' Seoul'') = asc ''Seoul''"
  "asc ''Seoul'' \<noteq> []"
  by (simp_all add: strip_py_def asc_def is_space_def)

text \<open>
  The existing value "Seoul" and the source URL \<open>https://x/y\<close>; and an input with no
  location at all.
\<close>

theorem merge_location_info_appends_witness:
  "merge_blog_input_with_crawl ex_fields ex_crawl key_location_info =
     Some (asc ''Seoul'' @ [10] @ map_link_label @ asc ''https://x/y'') \<and>
   merge_blog_input_with_crawl Map.empty ex_crawl key_location_info =
     Some (map_link_label @ asc ''https://x/y'')"
proof
  have "truthy ex_fields key_location_info" "get_or ex_fields key_location_info [] = asc ''Seoul''"
    by (simp_all add: truthy_def get_or_def ex_fields_def asc_def)
  then show "merge_blog_input_with_crawl ex_fields ex_crawl key_location_info =
     Some (asc ''Seoul'' @ [10] @ map_link_label @ asc ''https://x/y'')"
    using merge_location_info_appends[of ex_fields ex_crawl]
    by (simp add: strip_py_Seoul ex_crawl_def)
next
  have "\<not> truthy Map.empty key_location_info" by (simp add: truthy_def)
  then show "merge_blog_input_with_crawl Map.empty ex_crawl key_location_info =
     Some (map_link_label @ asc ''https://x/y'')"
    using merge_location_info_appends[of Map.empty ex_crawl] by (simp add: ex_crawl_def)
qed

text \<open>
  Claim C5 as stated fails on a value with a leading blank: the result is not the
  existing value followed by a line feed and the map link line, since the value is
  trimmed first.
\<close>

theorem merge_location_info_not_verbatim:
  "merge_blog_input_with_crawl ex_fields_padded ex_crawl key_location_info =
     Some (asc ''Seoul'' @ [10] @ map_link_label @ asc ''https://x/y'') \<and>
   merge_blog_input_with_crawl ex_fields_padded ex_crawl key_location_info \<noteq>
     Some (asc '' Seoul'' @ [10] @ map_link_label @ asc ''https://x/y'')"
proof -
  have "truthy ex_fields_padded key_location_info"
       "get_or ex_fields_padded key_location_info [] = asc '' Seoul''"
    by (simp_all add: truthy_def get_or_def ex_fields_padded_def asc_def)
  then have "merge_blog_input_with_crawl ex_fields_padded ex_crawl key_location_info =
     Some (asc ''Seoul'' @ [10] @ map_link_label @ asc ''https://x/y'')"
    by (simp add: merge_location_info strip_py_Seoul ex_crawl_def)
  then show ?thesis by (simp add: asc_def)
qed

lemma merge_twice_key:
  assumes "k \<in> set [key_place_name, key_business_hours, key_home_tab_info, key_menu_tab_info,
              key_info_tab_info, key_news_tab_info, key_parking_or_tips]"
  shows "merge_blog_input_with_crawl (merge_blog_input_with_crawl d c) c k =
         merge_blog_input_with_crawl d c k"
proof -
  from assms consider "k = key_place_name" | "k = key_business_hours" | "k = key_home_tab_info"
    | "k = key_menu_tab_info" | "k = key_info_tab_info" | "k = key_news_tab_info"
    | "k = key_parking_or_tips" by auto
  then show ?thesis
  proof cases
    case 1 then show ?thesis
      by (simp add: merge_place_name[of "merge_blog_input_with_crawl d c"])
         (simp add: merge_place_name truthy_def)
  next
    case 2 then show ?thesis
      by (simp add: merge_business_hours[of "merge_blog_input_with_crawl d c"])
         (simp add: merge_business_hours truthy_def)
  next
    case 3 then show ?thesis
      by (simp add: merge_tab_texts(1)[of "merge_blog_input_with_crawl d c"])
         (simp add: merge_tab_texts(1) truthy_def)
  next
    case 4 then show ?thesis
      by (simp add: merge_tab_texts(2)[of "merge_blog_input_with_crawl d c"])
         (simp add: merge_tab_texts(2) truthy_def)
  next
    case 5 then show ?thesis
      by (simp add: merge_tab_texts(3)[of "merge_blog_input_with_crawl d c"])
         (simp add: merge_tab_texts(3) truthy_def)
  next
    case 6 then show ?thesis
      by (simp add: merge_tab_texts(4)[of "merge_blog_input_with_crawl d c"])
         (simp add: merge_tab_texts(4) truthy_def)
  next
    case 7 then show ?thesis
      by (simp add: merge_parking_or_tips[of "merge_blog_input_with_crawl d c"])
         (simp add: merge_parking_or_tips truthy_def)
  qed
qed

lemma merge_twice_target_keyword:
  "merge_blog_input_with_crawl (merge_blog_input_with_crawl d c) c key_target_keyword =
   merge_blog_input_with_crawl d c key_target_keyword"
proof -
  let ?m = "merge_blog_input_with_crawl d c"
  have pn: "merge_blog_input_with_crawl ?m c key_place_name = ?m key_place_name"
    by (rule merge_twice_key) simp
  show ?thesis
  proof (cases "truthy ?m key_target_keyword")
    case True
    then show ?thesis by (simp add: merge_target_keyword[of ?m])
  next
    case False
    have nd: "\<not> truthy d key_target_keyword"
    proof
      assume t: "truthy d key_target_keyword"
      then have "?m key_target_keyword = d key_target_keyword"
        by (simp add: merge_target_keyword[of d])
      then have "truthy ?m key_target_keyword" using t by (simp add: truthy_def)
      with False show False by simp
    qed
    then have m: "?m key_target_keyword = Some (get_or ?m key_place_name [])"
      by (simp add: merge_target_keyword[of d])
    have "merge_blog_input_with_crawl ?m c key_target_keyword =
          Some (get_or (merge_blog_input_with_crawl ?m c) key_place_name [])"
      using False by (simp add: merge_target_keyword[of ?m])
    also have "\<dots> = Some (get_or ?m key_place_name [])"
      using pn by (simp add: get_or_def)
    finally show ?thesis using m by simp
  qed
qed

lemma truthy_merge_location_info: "truthy (merge_blog_input_with_crawl d c) key_location_info"
  by (simp add: truthy_def merge_location_info map_link_label_def)

text \<open>
  Claim C6. Merging the same crawl record into the merged record again changes no field
  but \<open>location_info\<close>; there the merger appends once more: the value so far (trimmed),
  a line feed, and the map link line.
\<close>

theorem merge_twice:
  "(k \<noteq> key_location_info \<longrightarrow>
      merge_blog_input_with_crawl (merge_blog_input_with_crawl d c) c k =
      merge_blog_input_with_crawl d c k) \<and>
   merge_blog_input_with_crawl (merge_blog_input_with_crawl d c) c key_location_info =
     Some (strip_py (get_or (merge_blog_input_with_crawl d c) key_location_info []) @ [10] @
           map_link_label @ source_url c)"
proof (intro conjI impI)
  assume ne: "k \<noteq> key_location_info"
  let ?m = "merge_blog_input_with_crawl d c"
  consider "k \<in> set [key_place_name, key_business_hours, key_home_tab_info, key_menu_tab_info,
              key_info_tab_info, key_news_tab_info, key_parking_or_tips]"
    | "k = key_target_keyword"
    | "k \<notin> set [key_place_name, key_business_hours, key_location_info,
             key_home_tab_info, key_menu_tab_info, key_info_tab_info,
             key_news_tab_info, key_parking_or_tips, key_target_keyword]"
    using ne by auto
  then show "merge_blog_input_with_crawl ?m c k = ?m k"
  proof cases
    case 1 then show ?thesis by (rule merge_twice_key)
  next
    case 2 then show ?thesis by (simp add: merge_twice_target_keyword)
  next
    case 3 then show ?thesis by (simp add: merge_other del: set_simps)
  qed
next
  show "merge_blog_input_with_crawl (merge_blog_input_with_crawl d c) c key_location_info =
     Some (strip_py (get_or (merge_blog_input_with_crawl d c) key_location_info []) @ [10] @
           map_link_label @ source_url c)"
    using truthy_merge_location_info[of d c]
    by (simp add: merge_location_info[of "merge_blog_input_with_crawl d c"])
qed

text \<open>
  The sample record merged twice: the target keyword stays, and the location receives
  the map link line a second time.
\<close>

theorem merge_twice_witness:
  "merge_blog_input_with_crawl (merge_blog_input_with_crawl ex_fields ex_crawl) ex_crawl
     key_target_keyword =
   merge_blog_input_with_crawl ex_fields ex_crawl key_target_keyword \<and>
   merge_blog_input_with_crawl (merge_blog_input_with_crawl ex_fields ex_crawl) ex_crawl
     key_location_info =
   Some (asc ''Seoul'' @ [10] @ map_link_label @ asc ''https://x/y'' @ [10] @
         map_link_label @ asc ''https://x/y'')"
proof
  show "merge_blog_input_with_crawl (merge_blog_input_with_crawl ex_fields ex_crawl) ex_crawl
     key_target_keyword = merge_blog_input_with_crawl ex_fields ex_crawl key_target_keyword"
    using merge_twice[of key_target_keyword ex_fields ex_crawl] by (simp add: keys_neq)
next
  have m: "merge_blog_input_with_crawl ex_fields ex_crawl key_location_info =
     Some (asc ''Seoul'' @ [10] @ map_link_label @ asc ''https://x/y'')"
    by (simp add: merge_location_info truthy_def get_or_def ex_fields_def strip_py_Seoul
        source_url_ex_crawl)
  then have g: "get_or (merge_blog_input_with_crawl ex_fields ex_crawl) key_location_info [] =
           asc ''Seoul'' @ [10] @ map_link_label @ asc ''https://x/y''"
    by (simp add: get_or_def)
  have s: "strip_py (asc ''Seoul'' @ 10 # map_link_label @ asc ''https://x/y'') =
           asc ''Seoul'' @ 10 # map_link_label @ asc ''https://x/y''"
    by (simp add: strip_py_def asc_def map_link_label_def is_space_def)
  show "merge_blog_input_with_crawl (merge_blog_input_with_crawl ex_fields ex_crawl) ex_crawl
     key_location_info =
   Some (asc ''Seoul'' @ [10] @ map_link_label @ asc ''https://x/y'' @ [10] @
         map_link_label @ asc ''https://x/y'')"
    using merge_twice[of key_target_keyword ex_fields ex_crawl, THEN conjunct2]
    by (simp add: g s source_url_ex_crawl)
qed


section \<open>The browser session\<close>

lemma then_do_Inr:
  "then_do m f s = (Inr y, s') \<longleftrightarrow> (\<exists>x s1. m s = (Inr x, s1) \<and> f x s1 = (Inr y, s'))"
  by (auto simp: then_do_def split: prod.splits sum.splits)

lemma then_do_Inl:
  "then_do m f s = (Inl e, s') \<longleftrightarrow>
     m s = (Inl e, s') \<or> (\<exists>x s1. m s = (Inr x, s1) \<and> f x s1 = (Inl e, s'))"
  by (auto simp: then_do_def split: prod.splits sum.splits)

lemma ret_eq: "ret x s = (r, s') \<longleftrightarrow> r = Inr x \<and> s' = s"
  by (auto simp: ret_def)

lemma on_world_logs:
  "on_world f s = (r, s') \<Longrightarrow> nav_log s' = nav_log s \<and> click_log s' = click_log s"
  by (auto simp: on_world_def split: prod.splits)

lemma page_goto_logs:
  "page_goto br url s = (r, s') \<Longrightarrow> nav_log s' = nav_log s @ [url] \<and> click_log s' = click_log s"
  by (auto simp: page_goto_def dest!: on_world_logs)

lemma page_wait_logs:
  "page_wait br ms s = (r, s') \<Longrightarrow> nav_log s' = nav_log s \<and> click_log s' = click_log s"
  by (auto simp: page_wait_def dest!: on_world_logs)

lemma element_click_logs:
  "element_click br el s = (r, s') \<Longrightarrow> nav_log s' = nav_log s \<and> click_log s' = click_log s @ [el]"
  by (auto simp: element_click_def dest!: on_world_logs)

lemma extract_tab_links_logs:
  "extract_tab_links br fr s = (r, s') \<Longrightarrow> nav_log s' = nav_log s"
  by (auto simp: extract_tab_links_def dest!: on_world_logs)

section \<open>The expand trigger\<close>

lemma expand_script_cases:
  assumes "expand_script br fr s = (r, s')"
  shows "nav_log s' = nav_log s \<and>
         (r = Inr True \<longrightarrow>
            (\<exists>cands s1 target. on_world (query_candidates br fr) s = (Inr cands, s1) \<and>
               find is_expand_target cands = Some target \<and>
               element_click br target s1 = (Inr (), s')))"
proof (cases "on_world (query_candidates br fr) s")
  case (Pair q s1)
  have n1: "nav_log s1 = nav_log s" using Pair on_world_logs by blast
  show ?thesis
  proof (cases q)
    case (Inl e)
    with Pair assms n1 show ?thesis by (auto simp: expand_script_def then_do_def)
  next
    case (Inr cands)
    show ?thesis
    proof (cases "find is_expand_target cands")
      case None
      with Pair Inr assms n1 show ?thesis
        by (auto simp: expand_script_def then_do_def ret_def)
    next
      case (Some target)
      obtain c s2 where c: "element_click br target s1 = (c, s2)" by (cases "element_click br target s1")
      then have n2: "nav_log s2 = nav_log s1" using element_click_logs by blast
      from Pair Inr Some c assms n1 n2 show ?thesis
        by (cases c) (auto simp: expand_script_def then_do_def ret_def)
    qed
  qed
qed

lemma expand_business_hours_total:
  "\<exists>b s'. expand_business_hours br fr s = (Inr b, s')"
  by (auto simp: expand_business_hours_def split: prod.splits sum.splits)

lemma expand_business_hours_nav:
  assumes "expand_business_hours br fr s = (r, s')"
  shows "nav_log s' = nav_log s"
proof -
  obtain q s1 where q: "on_world (scroll_nudge br fr) s = (q, s1)"
    by (cases "on_world (scroll_nudge br fr) s")
  then have n1: "nav_log s1 = nav_log s" using on_world_logs by blast
  show ?thesis
  proof (cases q)
    case (Inl e)
    with q assms n1 show ?thesis by (auto simp: expand_business_hours_def then_do_def)
  next
    case (Inr u)
    obtain r2 s2 where e: "expand_script br fr s1 = (r2, s2)" by (cases "expand_script br fr s1")
    then have "nav_log s2 = nav_log s1" using expand_script_cases by blast
    with q Inr e assms n1 show ?thesis
      by (cases r2) (auto simp: expand_business_hours_def then_do_def)
  qed
qed

text \<open>
  Claim C9. \<open>_expand_business_hours\<close> always returns a truth value and never an
  exception: when the scroll script raises, or the scroll script succeeds and the find
  and click script raises, the answer is \<open>False\<close>. When the answer is \<open>True\<close>, the
  query gave candidates, the first candidate whose trimmed text has an expand word and
  a time or the last-order word was clicked, the click returned, and it is the one click
  of the call.
\<close>

theorem expand_business_hours_best_effort:
  "(\<exists>b s'. expand_business_hours br fr s = (Inr b, s')) \<and>
   (fst (on_world (scroll_nudge br fr) s) = Inl e \<longrightarrow>
      fst (expand_business_hours br fr s) = Inr False) \<and>
   (on_world (scroll_nudge br fr) s = (Inr (), s1) \<and> fst (expand_script br fr s1) = Inl e \<longrightarrow>
      fst (expand_business_hours br fr s) = Inr False) \<and>
   (fst (expand_business_hours br fr s) = Inr True \<longrightarrow>
      (\<exists>s2 cands s3 target.
         on_world (scroll_nudge br fr) s = (Inr (), s2) \<and>
         on_world (query_candidates br fr) s2 = (Inr cands, s3) \<and>
         find is_expand_target cands = Some target \<and>
         has_expand_word (js_trim (inner_text target)) \<and>
         has_time_or_last_order (js_trim (inner_text target)) \<and>
         element_click br target s3 = (Inr (), snd (expand_business_hours br fr s)) \<and>
         click_log (snd (expand_business_hours br fr s)) = click_log s @ [target]))"
proof (intro conjI impI)
  show "\<exists>b s'. expand_business_hours br fr s = (Inr b, s')"
    by (rule expand_business_hours_total)
next
  assume "fst (on_world (scroll_nudge br fr) s) = Inl e"
  then show "fst (expand_business_hours br fr s) = Inr False"
    by (cases "on_world (scroll_nudge br fr) s")
       (simp add: expand_business_hours_def then_do_def)
next
  assume "on_world (scroll_nudge br fr) s = (Inr (), s1) \<and> fst (expand_script br fr s1) = Inl e"
  then show "fst (expand_business_hours br fr s) = Inr False"
    by (cases "expand_script br fr s1")
       (simp add: expand_business_hours_def then_do_def)
next
  assume t: "fst (expand_business_hours br fr s) = Inr True"
  obtain s' where r: "expand_business_hours br fr s = (Inr True, s')"
    using t by (cases "expand_business_hours br fr s") auto
  then have "then_do (on_world (scroll_nudge br fr)) (\<lambda>_. expand_script br fr) s = (Inr True, s')"
    by (auto simp: expand_business_hours_def split: prod.splits sum.splits)
  then obtain u s2 where a: "on_world (scroll_nudge br fr) s = (Inr u, s2)"
      and b: "expand_script br fr s2 = (Inr True, s')"
    by (auto simp: then_do_Inr)
  from b obtain cands s3 target where c: "on_world (query_candidates br fr) s2 = (Inr cands, s3)"
      and f: "find is_expand_target cands = Some target"
      and k: "element_click br target s3 = (Inr (), s')"
    using expand_script_cases by blast
  from f have "is_expand_target target" by (auto simp: find_Some_iff)
  then have w: "has_expand_word (js_trim (inner_text target))"
      "has_time_or_last_order (js_trim (inner_text target))"
    by (auto simp: is_expand_target_def Let_def split: if_splits)
  have "click_log s2 = click_log s" using a on_world_logs by blast
  moreover have "click_log s3 = click_log s2" using c on_world_logs by blast
  moreover have "click_log s' = click_log s3 @ [target]" using k element_click_logs by blast
  ultimately have l: "click_log s' = click_log s @ [target]" by simp
  show "\<exists>s2 cands s3 target.
         on_world (scroll_nudge br fr) s = (Inr (), s2) \<and>
         on_world (query_candidates br fr) s2 = (Inr cands, s3) \<and>
         find is_expand_target cands = Some target \<and>
         has_expand_word (js_trim (inner_text target)) \<and>
         has_time_or_last_order (js_trim (inner_text target)) \<and>
         element_click br target s3 = (Inr (), snd (expand_business_hours br fr s)) \<and>
         click_log (snd (expand_business_hours br fr s)) = click_log s @ [target]"
    using a c f w k l r by auto
qed

lemma ex_candidates:
  "\<not> is_expand_target el_more" "is_expand_target el_hours"
  by (simp_all add: is_expand_target_def el_more_def el_hours_def js_trim_def js_is_space_def
      word_more_def ex_expand_text_def Let_def has_expand_word_def has_time_or_last_order_def
      word_expand_def mark_last_order_def time_here_def time_tail_def js_is_digit_def
      js_is_word_def)

lemma ex_expand_ok:
  "expand_business_hours br_stub ex_place_frame ex_start =
     (Inr True, ex_start\<lparr>click_log := [el_hours]\<rparr>)"
  by (simp add: expand_business_hours_def then_do_def on_world_def expand_script_def
      br_stub_def ex_candidates element_click_def ret_def ex_start_def)

text \<open>
  A browser whose scroll script raises, and one with the two candidate controls, where
  the second is the target.
\<close>

theorem expand_business_hours_best_effort_witness:
  "fst (expand_business_hours br_failing ex_place_frame ex_start) = Inr False \<and>
   fst (expand_business_hours br_stub ex_place_frame ex_start) = Inr True \<and>
   click_log (snd (expand_business_hours br_stub ex_place_frame ex_start)) = [el_hours]"
proof (intro conjI)
  have "fst (on_world (scroll_nudge br_failing ex_place_frame) ex_start) =
          Inl (Exc LibraryError (asc ''Frame was detached''))"
    by (simp add: on_world_def br_failing_def br_stub_def)
  then show "fst (expand_business_hours br_failing ex_place_frame ex_start) = Inr False"
    using expand_business_hours_best_effort[of br_failing ex_place_frame ex_start] by blast
next
  show t: "fst (expand_business_hours br_stub ex_place_frame ex_start) = Inr True"
    by (simp add: ex_expand_ok)
  from t obtain s2 cands s3 target where
      q: "on_world (scroll_nudge br_stub ex_place_frame) ex_start = (Inr (), s2)"
         "on_world (query_candidates br_stub ex_place_frame) s2 = (Inr cands, s3)"
         "find is_expand_target cands = Some target"
      and l: "click_log (snd (expand_business_hours br_stub ex_place_frame ex_start)) =
              click_log ex_start @ [target]"
    using expand_business_hours_best_effort[of br_stub ex_place_frame ex_start] by blast
  from q(2) have "cands = [el_more, el_hours]"
    by (auto simp: on_world_def br_stub_def)
  with q(3) have "target = el_hours" by (simp add: ex_candidates)
  with l show "click_log (snd (expand_business_hours br_stub ex_place_frame ex_start)) = [el_hours]"
    by (simp add: ex_start_def)
qed


section \<open>The crawl orchestrator\<close>

lemma then_do_nav:
  assumes "then_do m f s = (r, s')"
    and "\<And>q s1. m s = (q, s1) \<Longrightarrow> nav_log s1 = nav_log s"
    and "\<And>x s1. m s = (Inr x, s1) \<Longrightarrow> f x s1 = (r, s') \<Longrightarrow> nav_log s' = nav_log s1"
  shows "nav_log s' = nav_log s"
proof (cases "m s")
  case (Pair q s1)
  show ?thesis
  proof (cases q)
    case (Inl e)
    with Pair assms(1) have "s' = s1" by (simp add: then_do_def)
    with Pair assms(2) show ?thesis by simp
  next
    case (Inr x)
    with Pair assms(1) have "f x s1 = (r, s')" by (simp add: then_do_def)
    with Pair Inr assms(2,3) show ?thesis by metis
  qed
qed

lemma expand_loop_nav:
  "expand_loop br fr n pause s = (r, s') \<Longrightarrow> nav_log s' = nav_log s"
proof (induction n arbitrary: s)
  case 0
  then show ?case by (simp add: ret_def)
next
  case (Suc n)
  from Suc.prems show ?case
  proof (simp only: expand_loop.simps, elim then_do_nav)
    fix q s1 assume "expand_business_hours br fr s = (q, s1)"
    then show "nav_log s1 = nav_log s" by (rule expand_business_hours_nav)
  next
    fix found s1
    assume a: "(if found then page_wait br 700
                else then_do (page_wait br pause) (\<lambda>_. expand_loop br fr n pause)) s1 = (r, s')"
    show "nav_log s' = nav_log s1"
    proof (cases found)
      case True
      with a have "page_wait br 700 s1 = (r, s')" by simp
      then show ?thesis using page_wait_logs by blast
    next
      case False
      with a have "then_do (page_wait br pause) (\<lambda>_. expand_loop br fr n pause) s1 = (r, s')"
        by simp
      then show ?thesis
      proof (elim then_do_nav)
        fix q s2 assume "page_wait br pause s1 = (q, s2)"
        then show "nav_log s2 = nav_log s1" using page_wait_logs by blast
      next
        fix x s2 assume "expand_loop br fr n pause s2 = (r, s')"
        then show "nav_log s' = nav_log s2" by (rule Suc.IH)
      qed
    qed
  qed
qed

lemma extract_text_nav:
  "extract_text br fr s = (r, s') \<Longrightarrow> nav_log s' = nav_log s"
  unfolding extract_text_def
proof (elim then_do_nav)
  fix q s1 assume "on_world (query_section_blocks br fr) s = (q, s1)"
  then show "nav_log s1 = nav_log s" using on_world_logs by blast
next
  fix blocks s1
  assume a: "(if sections_text blocks \<noteq> [] then ret (sections_text blocks)
              else then_do (on_world (query_panel_text br fr)) (\<lambda>raw. ret (normalize_text raw))) s1 =
             (r, s')"
  show "nav_log s' = nav_log s1"
  proof (cases "sections_text blocks \<noteq> []")
    case True
    with a show ?thesis by (simp add: ret_def)
  next
    case False
    with a have "then_do (on_world (query_panel_text br fr)) (\<lambda>raw. ret (normalize_text raw)) s1 =
                 (r, s')" by simp
    then show ?thesis
    proof (elim then_do_nav)
      fix q s2 assume "on_world (query_panel_text br fr) s1 = (q, s2)"
      then show "nav_log s2 = nav_log s1" using on_world_logs by blast
    next
      fix x s2 assume "ret (normalize_text x) s2 = (r, s')"
      then show "nav_log s' = nav_log s2" by (simp add: ret_def)
    qed
  qed
qed

lemma visit_tab_result:
  assumes "visit_tab br key tab_url result s = (Inr r, s')"
  shows "nav_log s' = nav_log s @ [tab_url] \<and> (\<exists>t. r = result(key := t))"
proof -
  from assms obtain s1 s2 u s3 t where
      g: "page_goto br tab_url s = (Inr (), s1)"
    and w: "page_wait br 2200 s1 = (Inr (), s2)"
    and e: "(if key = Home \<or> key = Info then expand_loop br (current_tab_frame br s2) 3 400
             else ret ()) s2 = (Inr u, s3)"
    and x: "extract_text br (current_tab_frame br s2) s3 = (Inr t, s')"
    and r: "r = result(key := t)"
    by (auto simp: visit_tab_def then_do_Inr ret_eq)
  have "nav_log s1 = nav_log s @ [tab_url]" using g page_goto_logs by blast
  moreover have "nav_log s2 = nav_log s1" using w page_wait_logs by blast
  moreover have "nav_log s3 = nav_log s2"
    using e expand_loop_nav by (auto simp: ret_def split: if_splits)
  moreover have "nav_log s' = nav_log s3" using x by (rule extract_text_nav)
  ultimately show ?thesis using r by auto
qed

text \<open>What one round of the loop over the tabs returns and where it navigates.\<close>

lemma crawl_tab_result:
  assumes "crawl_tab br links label key result s = (Inr r, s')"
  shows "(key = Home \<longrightarrow> r = result \<and> nav_log s' = nav_log s) \<and>
         (key \<noteq> Home \<and> \<not> truthy links label \<longrightarrow> r = result(key := []) \<and> nav_log s' = nav_log s) \<and>
         (key \<noteq> Home \<and> truthy links label \<longrightarrow>
            (\<exists>u t. urljoin br (asc ''https://pcmap.place.naver.com'') (get_or links label []) = Inr u \<and>
                   r = result(key := t) \<and> nav_log s' = nav_log s @ [u]))"
proof -
  have 1: "r = result \<and> nav_log s' = nav_log s" if "key = Home"
    using that assms by (simp add: crawl_tab_def ret_def)
  have 2: "r = result(key := []) \<and> nav_log s' = nav_log s" if "key \<noteq> Home \<and> \<not> truthy links label"
    using that assms by (auto simp: crawl_tab_def ret_def)
  have 3: "\<exists>u t. urljoin br (asc ''https://pcmap.place.naver.com'') (get_or links label []) = Inr u \<and>
                   r = result(key := t) \<and> nav_log s' = nav_log s @ [u]"
    if a: "key \<noteq> Home \<and> truthy links label"
  proof (cases "urljoin br (asc ''https://pcmap.place.naver.com'') (get_or links label [])")
    case (Inl e)
    with a assms show ?thesis by (simp add: crawl_tab_def raise_exc_def)
  next
    case (Inr u)
    with a assms have "visit_tab br key u result s = (Inr r, s')" by (simp add: crawl_tab_def)
    then show ?thesis using Inr visit_tab_result by blast
  qed
  from 1 2 3 show ?thesis by blast
qed

lemma tab_url_step:
  assumes "crawl_tab br links label key result s = (Inr r, s')" "key \<noteq> Home"
  shows "nav_log s' = nav_log s @
           (if truthy links label then
              (case urljoin br (asc ''https://pcmap.place.naver.com'') (get_or links label []) of
                 Inl e \<Rightarrow> [] | Inr u \<Rightarrow> [u])
            else []) \<and>
         (\<exists>t. r = result(key := t) \<and> (\<not> truthy links label \<longrightarrow> t = [])) \<and>
         (truthy links label \<longrightarrow>
            (\<exists>u. urljoin br (asc ''https://pcmap.place.naver.com'') (get_or links label []) = Inr u))"
  using crawl_tab_result[OF assms(1)] assms(2) by (cases "truthy links label") auto

lemma crawl_tabs_result:
  assumes "crawl_tabs br links label_to_key result s = (Inr r, s')"
  shows "nav_log s' = nav_log s @ tab_urls br links \<and>
         (\<not> truthy links label_menu \<longrightarrow> r Menu = []) \<and>
         (\<not> truthy links label_info \<longrightarrow> r Info = []) \<and>
         (\<not> truthy links label_news \<longrightarrow> r News = []) \<and>
         length (tab_urls br links) =
           length (filter (truthy links) [label_menu, label_info, label_news])"
proof -
  from assms obtain r0 s0 r1 s1 r2 s2 where
      h: "crawl_tab br links label_home Home result s = (Inr r0, s0)"
    and m: "crawl_tab br links label_menu Menu r0 s0 = (Inr r1, s1)"
    and i: "crawl_tab br links label_info Info r1 s1 = (Inr r2, s2)"
    and n: "crawl_tab br links label_news News r2 s2 = (Inr r, s')"
    by (auto simp: label_to_key_def then_do_Inr ret_eq)
  have h': "nav_log s0 = nav_log s" using crawl_tab_result[OF h] by simp
  note m' = tab_url_step[OF m] and i' = tab_url_step[OF i] and n' = tab_url_step[OF n]
  from m' obtain t1 where t1: "r1 = r0(Menu := t1)" "\<not> truthy links label_menu \<longrightarrow> t1 = []" by auto
  from i' obtain t2 where t2: "r2 = r1(Info := t2)" "\<not> truthy links label_info \<longrightarrow> t2 = []" by auto
  from n' obtain t3 where t3: "r = r2(News := t3)" "\<not> truthy links label_news \<longrightarrow> t3 = []" by auto
  have "nav_log s' = nav_log s @ tab_urls br links"
    using h' m' i' n' by (simp add: tab_urls_def)
  moreover have "r Menu = t1" "r Info = t2" "r News = t3" using t1 t2 t3 by simp_all
  moreover have "length (tab_urls br links) =
           length (filter (truthy links) [label_menu, label_info, label_news])"
  proof -
    have "length (if truthy links l then
              (case urljoin br (asc ''https://pcmap.place.naver.com'') (get_or links l []) of
                 Inl e \<Rightarrow> [] | Inr u \<Rightarrow> [u])
            else []) = (if truthy links l then 1 else 0)"
      if "truthy links l \<longrightarrow>
            (\<exists>u. urljoin br (asc ''https://pcmap.place.naver.com'') (get_or links l []) = Inr u)"
      for l using that by auto
    then show ?thesis using m' i' n' by (simp add: tab_urls_def)
  qed
  ultimately show ?thesis using t1 t2 t3 by simp
qed

lemma open_home_nav:
  assumes "open_home br url timeout_ms headless s = (Inr fr, s')"
  shows "nav_log s' = nav_log s @ [url]"
proof -
  from assms obtain s1 s2 where
      o: "on_world (open_session br timeout_ms headless) s = (Inr (), s1)"
    and g: "page_goto br url s1 = (Inr (), s2)"
    and w: "page_wait br 3500 s2 = (Inr (), s')"
    by (auto simp: open_home_def then_do_Inr ret_def raise_exc_def split: option.splits)
  have "nav_log s1 = nav_log s" using o on_world_logs by blast
  moreover have "nav_log s2 = nav_log s1 @ [url]" using g page_goto_logs by blast
  moreover have "nav_log s' = nav_log s2" using w page_wait_logs by blast
  ultimately show ?thesis by simp
qed

lemma crawl_session_result:
  assumes "crawl_session br url timeout_ms headless s = (Inr result, s')"
  shows "\<exists>fr s1 links s2.
           open_home br url timeout_ms headless s = (Inr fr, s1) \<and>
           extract_tab_links br fr s1 = (Inr links, s2) \<and>
           nav_log s' = nav_log s @ url # tab_urls br links \<and>
           (\<not> truthy links label_menu \<longrightarrow> result Menu = []) \<and>
           (\<not> truthy links label_info \<longrightarrow> result Info = []) \<and>
           (\<not> truthy links label_news \<longrightarrow> result News = []) \<and>
           length (tab_urls br links) =
             length (filter (truthy links) [label_menu, label_info, label_news])"
proof -
  from assms obtain fr s1 links s2 u s3 home s4 s5 where
      o: "open_home br url timeout_ms headless s = (Inr fr, s1)"
    and l: "extract_tab_links br fr s1 = (Inr links, s2)"
    and e: "expand_loop br fr 4 500 s2 = (Inr u, s3)"
    and x: "extract_text br fr s3 = (Inr home, s4)"
    and t: "crawl_tabs br links label_to_key ((\<lambda>_. [])(Home := home)) s4 = (Inr result, s5)"
    and c: "on_world (close_session br) s5 = (Inr (), s')"
    by (auto simp: crawl_session_def then_do_Inr ret_eq)
  have "nav_log s1 = nav_log s @ [url]" using o by (rule open_home_nav)
  moreover have "nav_log s2 = nav_log s1" using l by (rule extract_tab_links_logs)
  moreover have "nav_log s3 = nav_log s2" using e by (rule expand_loop_nav)
  moreover have "nav_log s4 = nav_log s3" using x by (rule extract_text_nav)
  moreover have "nav_log s5 = nav_log s4 @ tab_urls br links"
    using crawl_tabs_result[OF t] by blast
  moreover have "nav_log s' = nav_log s5" using c on_world_logs by blast
  ultimately have "nav_log s' = nav_log s @ url # tab_urls br links" by simp
  then show ?thesis using o l crawl_tabs_result[OF t] by blast
qed

lemma crawl_place_tabs_Inr:
  assumes "crawl_place_tabs net br map_url timeout_ms headless s = (Inr data, s')"
  shows "\<exists>pid result s1.
           extract_place_id net map_url = Inr pid \<and>
           crawl_session br (map_entry_home pid) timeout_ms headless s = (Inr result, s1) \<and>
           s' = s1\<lparr>world := stop_playwright br (world s1)\<rparr> \<and>
           data = \<lparr>place_id = pid, source_url = map_entry_home pid,
                    home_text = result Home, menu_text = result Menu,
                    info_text = result Info, news_text = result News\<rparr>"
  using assms
  by (auto simp: crawl_place_tabs_def Let_def split: if_splits sum.splits prod.splits)

text \<open>
  Claim C8. In a run of \<open>crawl_place_tabs\<close> that returns, let \<open>links\<close> be the links that
  tab discovery found on the place frame of the home page. For each of the menu, info
  and news labels without a (non-empty) link, the text of that tab in the returned
  record is empty. The navigations of the run are the home URL and then \<open>tab_urls\<close>:
  one URL for each of the three labels that has a link, and none for a label without,
  so there are as many tab navigations as labels with a link.
\<close>

theorem crawl_place_tabs_absent_tabs:
  assumes "crawl_place_tabs net br map_url timeout_ms headless s = (Inr data, s')"
  shows "\<exists>fr s1 links s2.
           open_home br (source_url data) timeout_ms headless s = (Inr fr, s1) \<and>
           extract_tab_links br fr s1 = (Inr links, s2) \<and>
           (\<not> truthy links label_menu \<longrightarrow> menu_text data = []) \<and>
           (\<not> truthy links label_info \<longrightarrow> info_text data = []) \<and>
           (\<not> truthy links label_news \<longrightarrow> news_text data = []) \<and>
           nav_log s' = nav_log s @ source_url data # tab_urls br links \<and>
           length (tab_urls br links) =
             length (filter (truthy links) [label_menu, label_info, label_news])"
proof -
  from crawl_place_tabs_Inr[OF assms] obtain pid result s1 where
      c: "crawl_session br (map_entry_home pid) timeout_ms headless s = (Inr result, s1)"
    and s': "s' = s1\<lparr>world := stop_playwright br (world s1)\<rparr>"
    and d: "data = \<lparr>place_id = pid, source_url = map_entry_home pid,
                    home_text = result Home, menu_text = result Menu,
                    info_text = result Info, news_text = result News\<rparr>"
    by blast
  from crawl_session_result[OF c] obtain fr s0 links s2 where
      o: "open_home br (map_entry_home pid) timeout_ms headless s = (Inr fr, s0)"
    and l: "extract_tab_links br fr s0 = (Inr links, s2)"
    and n: "nav_log s1 = nav_log s @ map_entry_home pid # tab_urls br links"
    and t: "\<not> truthy links label_menu \<longrightarrow> result Menu = []"
           "\<not> truthy links label_info \<longrightarrow> result Info = []"
           "\<not> truthy links label_news \<longrightarrow> result News = []"
    and k: "length (tab_urls br links) =
              length (filter (truthy links) [label_menu, label_info, label_news])"
    by blast
  have "open_home br (source_url data) timeout_ms headless s = (Inr fr, s0)"
    using o d by simp
  moreover have "\<not> truthy links label_menu \<longrightarrow> menu_text data = []"
    "\<not> truthy links label_info \<longrightarrow> info_text data = []"
    "\<not> truthy links label_news \<longrightarrow> news_text data = []"
    using t d by simp_all
  moreover have "nav_log s' = nav_log s @ source_url data # tab_urls br links"
    using n s' d by simp
  ultimately show ?thesis using l k by blast
qed

lemma ex_place_id: "extract_place_id env_place ex_map_url = Inr (asc ''1234567'')"
  by (simp add: extract_place_id_def env_place_def ex_map_url_def asc_def strip_py_def
      is_space_def patterns_def shape_here_def is_digit_def)

lemma stub_frame: "get_place_frame br_stub s = Some ex_place_frame"
  by (simp add: get_place_frame_def br_stub_def ex_outer_frame_def ex_place_frame_def asc_def)

lemma stub_expand:
  "expand_business_hours br_stub fr s = (Inr True, s\<lparr>click_log := click_log s @ [el_hours]\<rparr>)"
  by (simp add: expand_business_hours_def then_do_def on_world_def expand_script_def
      br_stub_def ex_candidates element_click_def ret_def)

lemma stub_session:
  "on_world (open_session br_stub t h) s = (Inr (), s)"
  "on_world (close_session br_stub) s = (Inr (), s)"
  "on_world (query_tab_links br_stub fr) s = (Inr ex_tab_links, s)"
  "playwright_installed br_stub" "stop_playwright br_stub w = w"
  by (simp_all add: on_world_def br_stub_def)

lemma stub_wait: "page_wait br_stub ms s = (Inr (), s)"
  by (simp add: page_wait_def on_world_def br_stub_def)

lemma stub_goto: "page_goto br_stub url s = (Inr (), s\<lparr>nav_log := nav_log s @ [url]\<rparr>)"
  by (simp add: page_goto_def on_world_def br_stub_def)

lemma stub_expand_loop:
  "expand_loop br_stub fr (Suc n) pause s = (Inr (), s\<lparr>click_log := click_log s @ [el_hours]\<rparr>)"
  by (simp add: then_do_def stub_expand stub_wait)

lemma stub_text: "extract_text br_stub fr s = (Inr (asc ''Cafe Naver''), s)"
proof -
  have "sections_text [] = []"
    by (simp add: sections_text_def normalize_text_def cr_to_lf_def strip_py_def)
  moreover have "normalize_text (asc ''Cafe Naver'') = asc ''Cafe Naver''"
    by (simp add: normalize_text_def cr_to_lf_def strip_py_def asc_def is_space_def)
  ultimately show ?thesis
    by (simp add: extract_text_def then_do_def on_world_def br_stub_def ret_def)
qed

lemma stub_links:
  "truthy ex_tab_links label_menu" "\<not> truthy ex_tab_links label_info"
  "\<not> truthy ex_tab_links label_news"
  "get_or ex_tab_links label_menu [] = asc ''/restaurant/1234567/menu''"
  by (simp_all add: truthy_def get_or_def ex_tab_links_def label_home_def label_menu_def
      label_info_def label_news_def asc_def)

lemma stub_tabs:
  "crawl_tabs br_stub ex_tab_links label_to_key result s =
     (Inr (result(Menu := asc ''Cafe Naver'', Info := [], News := [])),
      s\<lparr>nav_log := nav_log s @ [ex_menu_url]\<rparr>)"
proof -
  have u: "urljoin br_stub (asc ''https://pcmap.place.naver.com'') (asc ''/restaurant/1234567/menu'') =
           Inr ex_menu_url"
    by (simp add: br_stub_def ex_menu_url_def)
  have v: "visit_tab br_stub Menu ex_menu_url result s =
           (Inr (result(Menu := asc ''Cafe Naver'')), s\<lparr>nav_log := nav_log s @ [ex_menu_url]\<rparr>)"
    by (simp add: visit_tab_def then_do_def stub_goto stub_wait ret_def stub_text)
  show ?thesis
    by (simp add: label_to_key_def then_do_def crawl_tab_def ret_def stub_links u v)
qed

lemma ex_run:
  "crawl_place_tabs env_place br_stub ex_map_url 30000 True ex_start =
     (Inr \<lparr>place_id = asc ''1234567'', source_url = map_entry_home (asc ''1234567''),
           home_text = asc ''Cafe Naver'', menu_text = asc ''Cafe Naver'',
           info_text = [], news_text = []\<rparr>,
      \<lparr>world = (), nav_log = [map_entry_home (asc ''1234567''), ex_menu_url],
        click_log = [el_hours]\<rparr>)"
proof -
  have o: "open_home br_stub url 30000 True s =
           (Inr ex_place_frame, s\<lparr>nav_log := nav_log s @ [url]\<rparr>)" for url s
    by (simp add: open_home_def then_do_def stub_session stub_goto stub_wait stub_frame ret_def)
  have l: "extract_tab_links br_stub fr s = (Inr ex_tab_links, s)" for fr s
    by (simp add: extract_tab_links_def stub_session)
  have e: "expand_loop br_stub fr 4 500 s = (Inr (), s\<lparr>click_log := click_log s @ [el_hours]\<rparr>)"
    for fr s
    using stub_expand_loop[of fr 3 500 s] by (simp add: eval_nat_numeral)
  have "crawl_session br_stub (map_entry_home (asc ''1234567'')) 30000 True ex_start =
        (Inr (((\<lambda>_. [])(Home := asc ''Cafe Naver''))(Menu := asc ''Cafe Naver'', Info := [], News := [])),
         \<lparr>world = (), nav_log = [map_entry_home (asc ''1234567''), ex_menu_url],
           click_log = [el_hours]\<rparr>)"
    by (simp add: crawl_session_def then_do_def o l e stub_text stub_tabs stub_session ret_def
        ex_start_def)
  then show ?thesis
    by (simp add: crawl_place_tabs_def ex_place_id Let_def stub_session)
qed

text \<open>
  A place with a menu tab and neither an info nor a news tab, crawled from a mobile
  place URL: two navigations, the home URL and the menu tab.
\<close>

theorem crawl_place_tabs_absent_tabs_witness:
  "\<exists>data s'. crawl_place_tabs env_place br_stub ex_map_url 30000 True ex_start = (Inr data, s') \<and>
     menu_text data = asc ''Cafe Naver'' \<and> info_text data = [] \<and> news_text data = [] \<and>
     nav_log s' = [map_entry_home (asc ''1234567''), ex_menu_url]"
proof -
  let ?data = "\<lparr>place_id = asc ''1234567'', source_url = map_entry_home (asc ''1234567''),
           home_text = asc ''Cafe Naver'', menu_text = asc ''Cafe Naver'',
           info_text = [], news_text = []\<rparr>"
  let ?s = "\<lparr>world = (), nav_log = [map_entry_home (asc ''1234567''), ex_menu_url],
        click_log = [el_hours]\<rparr>"
  from crawl_place_tabs_absent_tabs[OF ex_run] obtain fr s1 links s2 where
      l: "extract_tab_links br_stub fr s1 = (Inr links, s2)"
    and a: "\<not> truthy links label_info \<longrightarrow> info_text ?data = []"
           "\<not> truthy links label_news \<longrightarrow> news_text ?data = []"
    and n: "nav_log ?s = nav_log ex_start @ source_url ?data # tab_urls br_stub links"
    by blast
  from l have links: "links = ex_tab_links"
    by (auto simp: extract_tab_links_def on_world_def br_stub_def)
  have u: "tab_urls br_stub ex_tab_links = [ex_menu_url]"
    by (simp add: tab_urls_def stub_links) (simp add: br_stub_def ex_menu_url_def)
  have "info_text ?data = []" "news_text ?data = []"
    using a links stub_links by auto
  moreover have "nav_log ?s = [map_entry_home (asc ''1234567''), ex_menu_url]"
    using n links u by (simp add: ex_start_def)
  ultimately show ?thesis using ex_run by auto
qed

text \<open>
  Claim C10. In a run of \<open>crawl_place_tabs\<close> that returns, the record's \<open>place_id\<close> is
  what \<open>extract_place_id\<close> gives for the input URL, and its \<open>source_url\<close> is
  \<open>https://map.naver.com/p/entry/place/\<close>, the identifier, \<open>?placePath=%2Fhome\<close>,
  whatever the input URL looks like. The map link line that the merger puts at the end
  of \<open>location_info\<close> carries this URL.
\<close>

theorem crawl_place_tabs_canonical_source:
  assumes "crawl_place_tabs net br map_url timeout_ms headless s = (Inr data, s')"
  shows "extract_place_id net map_url = Inr (place_id data) \<and>
         source_url data =
           asc ''https://map.naver.com/p/entry/place/'' @ place_id data @ asc ''?placePath=%2Fhome'' \<and>
         merge_blog_input_with_crawl d data key_location_info =
           Some ((if truthy d key_location_info
                  then strip_py (get_or d key_location_info []) @ [10] else []) @
                 map_link_label @ asc ''https://map.naver.com/p/entry/place/'' @ place_id data @
                 asc ''?placePath=%2Fhome'')"
proof -
  from crawl_place_tabs_Inr[OF assms] obtain pid where
      "extract_place_id net map_url = Inr pid" "place_id data = pid"
      "source_url data = map_entry_home pid"
    by auto
  then show ?thesis by (simp add: merge_location_info map_entry_home_def)
qed

text \<open>
  The same run: the input was a mobile place URL with a leading blank, the record
  carries the canonical entry URL, and so does the map link line.
\<close>

theorem crawl_place_tabs_canonical_source_witness:
  "\<exists>data s'. crawl_place_tabs env_place br_stub ex_map_url 30000 True ex_start = (Inr data, s') \<and>
     extract_place_id env_place ex_map_url = Inr (place_id data) \<and>
     place_id data = asc ''1234567'' \<and>
     source_url data = asc ''https://map.naver.com/p/entry/place/1234567?placePath=%2Fhome'' \<and>
     merge_blog_input_with_crawl Map.empty data key_location_info =
       Some (map_link_label @ asc ''https://map.naver.com/p/entry/place/1234567?placePath=%2Fhome'')"
proof -
  let ?data = "\<lparr>place_id = asc ''1234567'', source_url = map_entry_home (asc ''1234567''),
           home_text = asc ''Cafe Naver'', menu_text = asc ''Cafe Naver'',
           info_text = [], news_text = []\<rparr>"
  let ?s = "\<lparr>world = (), nav_log = [map_entry_home (asc ''1234567''), ex_menu_url],
        click_log = [el_hours]\<rparr>"
  note r = crawl_place_tabs_canonical_source[OF ex_run, of Map.empty]
  have t: "\<not> truthy Map.empty key_location_info" by (simp add: truthy_def)
  have j: "asc ''https://map.naver.com/p/entry/place/'' @ asc ''1234567'' @ asc ''?placePath=%2Fhome'' =
           asc ''https://map.naver.com/p/entry/place/1234567?placePath=%2Fhome''"
    by (simp add: asc_def)
  have a: "extract_place_id env_place ex_map_url = Inr (place_id ?data)"
    using r by blast
  have b: "source_url ?data = asc ''https://map.naver.com/p/entry/place/1234567?placePath=%2Fhome''"
    using r j by simp
  have c: "merge_blog_input_with_crawl Map.empty ?data key_location_info =
       Some (map_link_label @ asc ''https://map.naver.com/p/entry/place/1234567?placePath=%2Fhome'')"
  proof -
    from r have "merge_blog_input_with_crawl Map.empty ?data key_location_info =
           Some ((if truthy Map.empty key_location_info
                  then strip_py (get_or Map.empty key_location_info []) @ [10] else []) @
                 map_link_label @ asc ''https://map.naver.com/p/entry/place/'' @ place_id ?data @
                 asc ''?placePath=%2Fhome'')" by blast
    also have "\<dots> = Some (map_link_label @
        asc ''https://map.naver.com/p/entry/place/1234567?placePath=%2Fhome'')"
      using t j by simp
    finally show ?thesis .
  qed
  have d: "place_id ?data = asc ''1234567''" by simp
  show ?thesis
    using ex_run a b c d by blast
qed


end
